theory Spec2Isabelle
  imports Complex_Main
begin

section \<open>Data model\<close>

text \<open>
  The sticky-notes board of \<^verbatim>\<open>js/ui.js\<close>. Coordinates are JavaScript numbers; they are
  modelled as reals, so every coordinate is finite and subtraction is exact (no NaN, no
  rounding). Every Note object ever constructed lives in a store, a list indexed by the
  object's reference; the store only grows. The Note Manager holds references, as the
  JavaScript array holds the objects a listener's closure also holds.
\<close>

type_synonym noteRef = nat

record Note =
  note_content :: string
  note_x :: real
  note_y :: real
  note_timestamp :: int

datatype error = DuplicateIdentifier | FetchError

type_synonym noteJSON = "nat \<times> string \<times> real \<times> real \<times> int"

subsection \<open>Note Entity (notes.js)\<close>

text \<open>
  Modelled from the spec: \<^verbatim>\<open>createNote\<close> of notes.js is missing. Section 4.1: it assigns a
  new unique identifier and the current timestamp; content and position are taken
  verbatim. The identifier is unique for the lifetime of the collection and never reused,
  so the note's reference in the store stands for it; the current time is an argument.
\<close>

definition createNote :: "int \<Rightarrow> string \<Rightarrow> real \<Rightarrow> real \<Rightarrow> Note" where
  "createNote now c x y =
     \<lparr>note_content = c, note_x = x, note_y = y, note_timestamp = now\<rparr>"

text \<open>
  Modelled from the spec: \<^verbatim>\<open>Note.updateContent\<close> of notes.js is missing. Section 4.1:
  replaces content; always succeeds.
\<close>

definition updateContent :: "string \<Rightarrow> Note \<Rightarrow> Note" where
  "updateContent txt n = n\<lparr>note_content := txt\<rparr>"

text \<open>
  Modelled from the spec: \<^verbatim>\<open>Note.updatePosition\<close> of notes.js is missing. Section 4.1:
  replaces position verbatim; this operation does not itself clamp.
\<close>

definition updatePosition :: "real \<Rightarrow> real \<Rightarrow> Note \<Rightarrow> Note" where
  "updatePosition x y n = n\<lparr>note_x := x, note_y := y\<rparr>"

text \<open>
  Modelled from the spec: \<^verbatim>\<open>Note.serialize\<close> of notes.js is missing. Section 4.1: a pure
  snapshot \<^verbatim>\<open>{id, content, x, y, timestamp}\<close>.
\<close>

definition serialize :: "noteRef \<Rightarrow> Note \<Rightarrow> noteJSON" where
  "serialize r n = (r, note_content n, note_x n, note_y n, note_timestamp n)"

text \<open>
  Modelled from the spec: \<^verbatim>\<open>Note.addRandomQuote\<close> of notes.js is missing. Sections 4.4 and
  6: the quote-fetch collaborator returns a quote string or fails with a fetch error; the
  returned text is appended to the note's content on success and the content is left
  untouched on failure. The outcome of the fetch is an argument.
\<close>

datatype fetchResult = Fulfilled string | Rejected

definition addRandomQuote :: "fetchResult \<Rightarrow> Note \<Rightarrow> error + Note" where
  "addRandomQuote res n =
     (case res of
        Rejected \<Rightarrow> Inl FetchError
      | Fulfilled q \<Rightarrow> Inr (updateContent (note_content n @ q) n))"

subsection \<open>Note Manager (notes.js)\<close>

text \<open>
  Modelled from the spec: the class \<^verbatim>\<open>NoteManager\<close> of notes.js is missing. Section 4.2:
  \<^verbatim>\<open>addNote\<close> fails with DuplicateIdentifier if a note with the same id already exists and
  otherwise appends; \<^verbatim>\<open>removeNote\<close> removes the note with that id and is a no-op if it is
  absent; \<^verbatim>\<open>getAllNotes\<close> returns the current order; the two sorts reorder by creation
  timestamp, stable on ties, and alter no note; \<^verbatim>\<open>toJSON\<close> serializes each note in order.
\<close>

definition addNote :: "noteRef \<Rightarrow> noteRef list \<Rightarrow> error + noteRef list" where
  "addNote r m = (if r \<in> set m then Inl DuplicateIdentifier else Inr (m @ [r]))"

definition removeNote :: "noteRef \<Rightarrow> noteRef list \<Rightarrow> noteRef list" where
  "removeNote r m = filter (\<lambda>q. q \<noteq> r) m"

definition getAllNotes :: "noteRef list \<Rightarrow> noteRef list" where
  "getAllNotes m = m"

definition sortByAscending :: "Note list \<Rightarrow> noteRef list \<Rightarrow> noteRef list" where
  "sortByAscending h m = sort_key (\<lambda>q. note_timestamp (h ! q)) m"

definition sortByDescending :: "Note list \<Rightarrow> noteRef list \<Rightarrow> noteRef list" where
  "sortByDescending h m = sort_key (\<lambda>q. - note_timestamp (h ! q)) m"

definition toJSON :: "Note list \<Rightarrow> noteRef list \<Rightarrow> noteJSON list" where
  "toJSON h m = map (\<lambda>q. serialize q (h ! q)) m"

subsection \<open>The page\<close>

text \<open>What \<^verbatim>\<open>getBoundingClientRect\<close> returns, as far as ui.js reads it.\<close>

record domRect =
  rect_left :: real
  rect_top :: real
  rect_width :: real
  rect_height :: real

text \<open>
  The text of a note's quote button: the light bulb (the original icon), the hourglass
  (loading) and the cross mark (error).
\<close>

datatype icon = Bulb | Hourglass | Cross

text \<open>
  Where on a note element a mouse event lands: \<^verbatim>\<open>event.target\<close> is the delete button, the
  quote button, the content element itself, a node inside the content element (the
  content area is edited in place, and a browser wraps the lines of a multi-line note in
  child elements), or anything else of the note element.
\<close>

datatype target = DeleteButton | QuoteButton | ContentElement | InsideContent | Elsewhere

text \<open>
  One record per call of \<^verbatim>\<open>setupNoteEventListeners\<close>: the note the closure captured, the
  closure's variables \<^verbatim>\<open>isDragging\<close>, \<^verbatim>\<open>dragOffsetX\<close>, \<^verbatim>\<open>dragOffsetY\<close> (undefined until
  the first drag starts), and the state of the element the listeners were put on: the
  quote button's text, the classes note-active and note-fade-out, the number of
  animationend listeners that \<^verbatim>\<open>deleteNote\<close> has added, and whether the element is on
  the board.
\<close>

record noteElement =
  el_note :: noteRef
  isDragging :: bool
  dragOffsetX :: "real option"
  dragOffsetY :: "real option"
  quoteButton :: icon
  noteActive :: bool
  noteFadeOut :: bool
  animationendListeners :: nat
  attached :: bool

text \<open>
  The callbacks ui.js hands to the timers: the auto-save callback of \<^verbatim>\<open>setInterval\<close>, and
  the callback of \<^verbatim>\<open>setTimeout\<close> that restores the quote button of an element.
\<close>

datatype callback = SaveNotes | RestoreIcon nat

text \<open>
  The state of the page: the store of Note objects, the manager's ordered collection, the
  note elements in the order their listeners were registered, the timers that are set (each
  with its delay in milliseconds), and what the persistence and export collaborators
  (storage.js) have been handed so far.
\<close>

record ui_state =
  heap :: "Note list"
  manager :: "noteRef list"
  elements :: "noteElement list"
  timeouts :: "(nat \<times> callback) list"
  intervals :: "(nat \<times> callback) list"
  saved :: "noteJSON list list"
  exported :: "noteJSON list list"

definition updElement :: "nat \<Rightarrow> (noteElement \<Rightarrow> noteElement) \<Rightarrow> ui_state \<Rightarrow> ui_state" where
  "updElement e f s = s\<lparr>elements := (elements s)[e := f (elements s ! e)]\<rparr>"

definition updNote :: "noteRef \<Rightarrow> (Note \<Rightarrow> Note) \<Rightarrow> ui_state \<Rightarrow> ui_state" where
  "updNote r f s = s\<lparr>heap := (heap s)[r := f (heap s ! r)]\<rparr>"

section \<open>ui.js\<close>

text \<open>
  Modelled from the spec: \<^verbatim>\<open>Note.createElement\<close> of notes.js is missing. Section 6: given
  a Note, the render collaborator produces a visual element with a content region, a
  delete control and a quote control. The element is new: not on the board, no class set,
  the quote button showing its original icon.
\<close>

definition createElement :: "noteRef \<Rightarrow> noteElement" where
  "createElement r =
     \<lparr>el_note = r, isDragging = False, dragOffsetX = None, dragOffsetY = None,
      quoteButton = Bulb, noteActive = False, noteFadeOut = False,
      animationendListeners = 0, attached = False\<rparr>"

text \<open>
  \<^verbatim>\<open>setupNoteEventListeners\<close> (lines 92-181) declares the closure variables and registers
  the listeners below, three of them on the element's parts, one on the element, two on
  the document.
\<close>

definition setupNoteEventListeners :: "noteElement \<Rightarrow> noteElement" where
  "setupNoteEventListeners el = el\<lparr>isDragging := False, dragOffsetX := None, dragOffsetY := None\<rparr>"

text \<open>Lines 103-105: the input listener of the content area.\<close>

definition contentInput :: "nat \<Rightarrow> string \<Rightarrow> ui_state \<Rightarrow> ui_state" where
  "contentInput e textContent s = updNote (el_note (elements s ! e)) (updateContent textContent) s"

text \<open>Lines 189-201: \<^verbatim>\<open>deleteNote\<close>, and the animationend listener it adds.\<close>

definition deleteNote :: "nat \<Rightarrow> ui_state \<Rightarrow> ui_state" where
  "deleteNote e s =
     updElement e (\<lambda>el. el\<lparr>noteFadeOut := True,
                           animationendListeners := animationendListeners el + 1\<rparr>) s"

definition animationendListener :: "nat \<Rightarrow> ui_state \<Rightarrow> ui_state" where
  "animationendListener e s =
     (updElement e (\<lambda>el. el\<lparr>attached := False\<rparr>) s)
       \<lparr>manager := removeNote (el_note (elements s ! e)) (manager s)\<rparr>"

text \<open>An animationend event on an element runs every listener added so far.\<close>

definition animationend :: "nat \<Rightarrow> ui_state \<Rightarrow> ui_state" where
  "animationend e s = ((animationendListener e) ^^ (animationendListeners (elements s ! e))) s"

text \<open>
  Lines 113-128: the click listener of the quote button. It runs up to the \<^verbatim>\<open>await\<close>
  (\<open>quoteClick\<close>) and resumes when the fetch has settled (\<open>quoteSettled\<close>); the
  \<^verbatim>\<open>catch\<close> block handles the rejection, so the listener itself ends normally.
\<close>

definition quoteClick :: "nat \<Rightarrow> ui_state \<Rightarrow> ui_state" where
  "quoteClick e s = updElement e (\<lambda>el. el\<lparr>quoteButton := Hourglass\<rparr>) s"

definition quoteSettled :: "nat \<Rightarrow> fetchResult \<Rightarrow> ui_state \<Rightarrow> error + ui_state" where
  "quoteSettled e res s =
     (let r = el_note (elements s ! e) in
      case addRandomQuote res (heap s ! r) of
        Inr n \<Rightarrow> Inr (updElement e (\<lambda>el. el\<lparr>quoteButton := Bulb\<rparr>) (updNote r (\<lambda>_. n) s))
      | Inl err \<Rightarrow>
          Inr ((updElement e (\<lambda>el. el\<lparr>quoteButton := Cross\<rparr>) s)
                 \<lparr>timeouts := timeouts s @ [(1500, RestoreIcon e)]\<rparr>))"

definition restoreIcon :: "nat \<Rightarrow> ui_state \<Rightarrow> ui_state" where
  "restoreIcon e s = updElement e (\<lambda>el. el\<lparr>quoteButton := Bulb\<rparr>) s"

text \<open>Lines 131-152: the mousedown listener of the note element.\<close>

definition mousedown :: "nat \<Rightarrow> target \<Rightarrow> real \<Rightarrow> real \<Rightarrow> domRect \<Rightarrow> ui_state \<Rightarrow> ui_state" where
  "mousedown e tgt clientX clientY noteRect s =
     (if tgt = DeleteButton \<or> tgt = QuoteButton \<or> tgt = ContentElement then s
      else updElement e (\<lambda>el. el\<lparr>isDragging := True,
                                   dragOffsetX := Some (clientX - rect_left noteRect),
                                   dragOffsetY := Some (clientY - rect_top noteRect),
                                   noteActive := True\<rparr>) s)"

text \<open>
  Lines 167-168: \<^verbatim>\<open>Math.max(0, Math.min(v, limit))\<close>, where \<open>limit\<close> is the board's
  width (height) minus the element's.
\<close>

definition keepWithin :: "real \<Rightarrow> real \<Rightarrow> real" where
  "keepWithin v limit = max 0 (min v limit)"

text \<open>
  Lines 155-172: the mousemove listener on the document. \<open>boardRect\<close> is the board's
  bounding rectangle and \<open>offsetWidth\<close>, \<open>offsetHeight\<close> the element's size, all read when
  the event is handled. A drag offset is only read after mousedown has set it (lemma
  \<open>wellFormed_step\<close>); on an undefined offset the model leaves the state as it is.
\<close>

definition mousemove ::
  "nat \<Rightarrow> real \<Rightarrow> real \<Rightarrow> domRect \<Rightarrow> real \<Rightarrow> real \<Rightarrow> ui_state \<Rightarrow> ui_state" where
  "mousemove e clientX clientY boardRect offsetWidth offsetHeight s =
     (let el = elements s ! e in
      if \<not> isDragging el then s
      else
        (case (dragOffsetX el, dragOffsetY el) of
           (Some ox, Some oy) \<Rightarrow>
             (let newX = clientX - rect_left boardRect - ox;
                  newY = clientY - rect_top boardRect - oy;
                  newX = keepWithin newX (rect_width boardRect - offsetWidth);
                  newY = keepWithin newY (rect_height boardRect - offsetHeight)
              in updNote (el_note el) (updatePosition newX newY) s)
         | _ \<Rightarrow> s))"

text \<open>Lines 175-180: the mouseup listener on the document.\<close>

definition mouseup :: "nat \<Rightarrow> ui_state \<Rightarrow> ui_state" where
  "mouseup e s =
     (if isDragging (elements s ! e)
      then updElement e (\<lambda>el. el\<lparr>isDragging := False, noteActive := False\<rparr>) s
      else s)"

text \<open>
  Lines 52-84: \<^verbatim>\<open>createNewNote\<close>. \<open>boardRect\<close> is the board's bounding rectangle and
  \<open>now\<close> the time, both read during the call. An exception of \<^verbatim>\<open>addNote\<close> leaves the
  function before the element is made.
\<close>

definition createNewNote :: "real \<Rightarrow> real \<Rightarrow> domRect \<Rightarrow> int \<Rightarrow> ui_state \<Rightarrow> error + ui_state" where
  "createNewNote x y boardRect now s =
     (let boardX = x - rect_left boardRect;
          boardY = y - rect_top boardRect;
          note = createNote now [] boardX boardY;
          r = length (heap s)
      in case addNote r (manager s) of
           Inl err \<Rightarrow> Inl err
         | Inr m \<Rightarrow>
             Inr (s\<lparr>heap := heap s @ [note],
                    manager := m,
                    elements := elements s @
                      [(setupNoteEventListeners (createElement r))\<lparr>attached := True\<rparr>]\<rparr>))"

text \<open>Lines 207-210 and 216-222: export, and the auto-save timer with its callback.\<close>

definition exportNotes :: "ui_state \<Rightarrow> ui_state" where
  "exportNotes s = s\<lparr>exported := exported s @ [toJSON (heap s) (manager s)]\<rparr>"

definition saveNotesCallback :: "ui_state \<Rightarrow> ui_state" where
  "saveNotesCallback s = s\<lparr>saved := saved s @ [toJSON (heap s) (manager s)]\<rparr>"

definition setupAutoSave :: "ui_state \<Rightarrow> ui_state" where
  "setupAutoSave s = s\<lparr>intervals := intervals s @ [(5000, SaveNotes)]\<rparr>"

text \<open>
  Lines 228-244: \<^verbatim>\<open>renderAllNotes\<close> takes every note element off the board and makes a new
  element, with new listeners, for every note of the manager.
\<close>

definition renderAllNotes :: "ui_state \<Rightarrow> ui_state" where
  "renderAllNotes s =
     s\<lparr>elements := map (\<lambda>el. el\<lparr>attached := False\<rparr>) (elements s) @
         map (\<lambda>r. (setupNoteEventListeners (createElement r))\<lparr>attached := True\<rparr>)
           (getAllNotes (manager s))\<rparr>"

text \<open>
  Lines 258-261 and 276-279: the loop of the two sort functions, \<open>y\<close> being the value
  of the variable before the iteration.
\<close>

fun sortLoop :: "real \<Rightarrow> real \<Rightarrow> noteRef list \<Rightarrow> Note list \<Rightarrow> Note list" where
  "sortLoop x y [] h = h"
| "sortLoop x y (r # sortedNotes) h =
     sortLoop x (y + 50) sortedNotes (h[r := updatePosition x (y + 50) (h ! r)])"

text \<open>Lines 251-262 and 269-280.\<close>

definition sortByAsc :: "ui_state \<Rightarrow> ui_state" where
  "sortByAsc s =
     (let s1 = renderAllNotes (s\<lparr>manager := sortByAscending (heap s) (manager s)\<rparr>);
          sortedNotes = getAllNotes (manager s1)
      in s1\<lparr>heap := sortLoop 550 0 sortedNotes (heap s1)\<rparr>)"

definition sortByDesc :: "ui_state \<Rightarrow> ui_state" where
  "sortByDesc s =
     (let s1 = renderAllNotes (s\<lparr>manager := sortByDescending (heap s) (manager s)\<rparr>);
          sortedNotes = getAllNotes (manager s1)
      in s1\<lparr>heap := sortLoop 550 0 sortedNotes (heap s1)\<rparr>)"

text \<open>
  Lines 13-44: \<^verbatim>\<open>initializeUI\<close> registers the listeners of the board and of the three
  buttons (dispatched by \<open>step\<close> below) and sets up the auto-save timer. It is given the
  manager, here the store and the manager's collection.
\<close>

definition initializeUI :: "Note list \<Rightarrow> noteRef list \<Rightarrow> ui_state" where
  "initializeUI h m =
     setupAutoSave \<lparr>heap = h, manager = m, elements = [], timeouts = [], intervals = [],
                    saved = [], exported = []\<rparr>"

section \<open>Events\<close>

text \<open>
  What the browser delivers, each event with what its listener reads from the page while
  it runs: the pointer's client coordinates, the bounding rectangle of the board or of the
  note element, the rendered size of each element.
\<close>

datatype event =
    DblClick bool real real domRect int
  | ExportClick
  | AscendingClick
  | DescendingClick
  | Input nat string
  | DeleteClick nat
  | QuoteClick nat
  | QuoteSettled nat fetchResult
  | MouseDown nat target real real domRect
  | MouseMove real real domRect "nat \<Rightarrow> real \<times> real"
  | MouseUp
  | AnimationEnd nat
  | TimeoutFires nat
  | IntervalFires nat

definition runCallback :: "callback \<Rightarrow> ui_state \<Rightarrow> ui_state" where
  "runCallback cb s = (case cb of SaveNotes \<Rightarrow> saveNotesCallback s | RestoreIcon e \<Rightarrow> restoreIcon e s)"

definition onBoard :: "nat \<Rightarrow> ui_state \<Rightarrow> bool" where
  "onBoard e s = (e < length (elements s) \<and> attached (elements s ! e))"

text \<open>
  One event, handled to completion. An event on a note element reaches its listeners only
  while the element is on the board; mousemove and mouseup are listened for on the
  document, so they reach the listeners of every element ever set up, in the order of
  registration. \<open>DblClick onTheBoard x y boardRect now\<close> is a double click whose target is
  the board itself or not; an uncaught exception ends the listener.
\<close>

fun step :: "ui_state \<Rightarrow> event \<Rightarrow> ui_state" where
  "step s (DblClick onTheBoard clientX clientY boardRect now) =
     (if onTheBoard
      then (case createNewNote clientX clientY boardRect now s of Inl err \<Rightarrow> s | Inr s' \<Rightarrow> s')
      else s)"
| "step s ExportClick = exportNotes s"
| "step s AscendingClick = sortByAsc s"
| "step s DescendingClick = sortByDesc s"
| "step s (Input e textContent) = (if onBoard e s then contentInput e textContent s else s)"
| "step s (DeleteClick e) = (if onBoard e s then deleteNote e s else s)"
| "step s (QuoteClick e) = (if onBoard e s then quoteClick e s else s)"
| "step s (QuoteSettled e res) =
     (if e < length (elements s)
      then (case quoteSettled e res s of Inl err \<Rightarrow> s | Inr s' \<Rightarrow> s')
      else s)"
| "step s (MouseDown e tgt clientX clientY noteRect) =
     (if onBoard e s then mousedown e tgt clientX clientY noteRect s else s)"
| "step s (MouseMove clientX clientY boardRect offsetSize) =
     foldl (\<lambda>t e. mousemove e clientX clientY boardRect (fst (offsetSize e)) (snd (offsetSize e)) t)
       s [0..<length (elements s)]"
| "step s MouseUp = foldl (\<lambda>t e. mouseup e t) s [0..<length (elements s)]"
| "step s (AnimationEnd e) = (if onBoard e s then animationend e s else s)"
| "step s (TimeoutFires k) =
     (if k < length (timeouts s)
      then runCallback (snd (timeouts s ! k)) (s\<lparr>timeouts := take k (timeouts s) @ drop (Suc k) (timeouts s)\<rparr>)
      else s)"
| "step s (IntervalFires k) =
     (if k < length (intervals s) then runCallback (snd (intervals s ! k)) s else s)"

definition run :: "ui_state \<Rightarrow> event list \<Rightarrow> ui_state" where
  "run s evs = foldl step s evs"

section \<open>Well-formed states and traces\<close>

text \<open>
  The states the page can be in: the manager holds every note once, every reference points
  into the store, and a closure that is dragging has both of its offsets defined. The
  invariant holds after \<open>initializeUI\<close> and is kept by every event (lemmas
  \<open>wellFormed_initializeUI\<close>, \<open>wellFormed_step\<close>).
\<close>

definition wfElement :: "nat \<Rightarrow> noteElement \<Rightarrow> bool" where
  "wfElement n el =
     (el_note el < n \<and> (\<not> isDragging el \<or> (dragOffsetX el \<noteq> None \<and> dragOffsetY el \<noteq> None)))"

definition wellFormed :: "ui_state \<Rightarrow> bool" where
  "wellFormed s =
     (distinct (manager s) \<and> list_all (\<lambda>r. r < length (heap s)) (manager s) \<and>
      list_all (wfElement (length (heap s))) (elements s))"

text \<open>A note is idle when no closure that captured it is dragging.\<close>

definition idle :: "noteRef \<Rightarrow> ui_state \<Rightarrow> bool" where
  "idle r s = list_all (\<lambda>el. el_note el \<noteq> r \<or> \<not> isDragging el) (elements s)"

text \<open>The note a closure captured, with the closure's three variables.\<close>

definition dragVars :: "noteElement \<Rightarrow> noteRef \<times> bool \<times> real option \<times> real option" where
  "dragVars el = (el_note el, isDragging el, dragOffsetX el, dragOffsetY el)"

text \<open>
  The events that leave a drag of element \<open>e\<close> going: anything but a mouseup and a
  mousedown that starts a drag of \<open>e\<close> anew.
\<close>

fun duringDrag :: "nat \<Rightarrow> event \<Rightarrow> bool" where
  "duringDrag e MouseUp = False"
| "duringDrag e (MouseDown e' tgt clientX clientY noteRect) =
     (e' \<noteq> e \<or> tgt = DeleteButton \<or> tgt = QuoteButton \<or> tgt = ContentElement)"
| "duringDrag e ev = True"

text \<open>
  An event completes the exit transition of note \<open>r\<close> when it is the animationend of an
  element on the board that shows \<open>r\<close>. A trace is before the end of the transition when
  none of its events, each taken in the state it happens in, completes it.
\<close>

fun completesTransition :: "noteRef \<Rightarrow> ui_state \<Rightarrow> event \<Rightarrow> bool" where
  "completesTransition r s (AnimationEnd e) = (onBoard e s \<and> el_note (elements s ! e) = r)"
| "completesTransition r s ev = False"

fun beforeTransitionEnd :: "noteRef \<Rightarrow> ui_state \<Rightarrow> event list \<Rightarrow> bool" where
  "beforeTransitionEnd r s [] = True"
| "beforeTransitionEnd r s (ev # evs) =
     (\<not> completesTransition r s ev \<and> beforeTransitionEnd r (step s ev) evs)"

text \<open>
  An event touches the quote button of element \<open>e\<close> when it belongs to a quote request
  of \<open>e\<close> (a click on the quote button of \<open>e\<close>, the settling of a fetch for \<open>e\<close>, the
  firing of a timer that restores the button of \<open>e\<close>) or can take the element off the board
  (a sort, which renders every note anew, and the animationend of \<open>e\<close>). A trace leaves
  the button alone when it has no such event.
\<close>

fun touchesButton :: "nat \<Rightarrow> ui_state \<Rightarrow> event \<Rightarrow> bool" where
  "touchesButton e s (QuoteClick e') = (e' = e)"
| "touchesButton e s (QuoteSettled e' res) = (e' = e)"
| "touchesButton e s (TimeoutFires k) =
     (k < length (timeouts s) \<and> snd (timeouts s ! k) = RestoreIcon e)"
| "touchesButton e s (IntervalFires k) =
     (k < length (intervals s) \<and> snd (intervals s ! k) = RestoreIcon e)"
| "touchesButton e s AscendingClick = True"
| "touchesButton e s DescendingClick = True"
| "touchesButton e s (AnimationEnd e') = (e' = e)"
| "touchesButton e s ev = False"

fun buttonLeftAlone :: "nat \<Rightarrow> ui_state \<Rightarrow> event list \<Rightarrow> bool" where
  "buttonLeftAlone e s [] = True"
| "buttonLeftAlone e s (ev # evs) =
     (\<not> touchesButton e s ev \<and> buttonLeftAlone e (step s ev) evs)"

text \<open>
  Element \<open>e\<close> is on the board, its quote button shows \<open>ic\<close>, and a timeout of \<open>d\<close>
  milliseconds that restores it is set.
\<close>

definition buttonShows :: "nat \<Rightarrow> icon \<Rightarrow> nat \<Rightarrow> ui_state \<Rightarrow> bool" where
  "buttonShows e ic d s =
     (onBoard e s \<and> quoteButton (elements s ! e) = ic \<and>
      (d, RestoreIcon e) \<in> set (timeouts s))"

text \<open>
  No two elements on the board show the same note. This holds after \<open>initializeUI\<close> and
  is kept by every event in a well-formed state (lemmas \<open>onePerNote_initializeUI\<close>,
  \<open>onePerNote_step\<close>).
\<close>

definition onePerNote :: "ui_state \<Rightarrow> bool" where
  "onePerNote s =
     list_all (\<lambda>i. list_all (\<lambda>j. i = j \<or> \<not> attached (elements s ! i) \<or>
                                  \<not> attached (elements s ! j) \<or>
                                  el_note (elements s ! i) \<noteq> el_note (elements s ! j))
                        [0..<length (elements s)])
       [0..<length (elements s)]"

text \<open>
  The bounds of section 4.3 for a note of rendered size \<open>w\<close> by \<open>h\<close> on a board with
  bounding rectangle \<open>boardRect\<close>.
\<close>

definition withinBoard :: "domRect \<Rightarrow> real \<Rightarrow> real \<Rightarrow> Note \<Rightarrow> bool" where
  "withinBoard boardRect w h n =
     (0 \<le> note_x n \<and> note_x n \<le> rect_width boardRect - w \<and>
      0 \<le> note_y n \<and> note_y n \<le> rect_height boardRect - h)"

subsection \<open>A session\<close>

text \<open>
  A board of 500 by 500 whose top-left corner is at (10, 20) of the viewport, notes of 100
  by 50, and the page after \<open>initializeUI\<close> on an empty manager and a double click on the
  board at (110, 70), which puts note 0 at (100, 50) of the board.
\<close>

definition board500 :: domRect where
  "board500 = \<lparr>rect_left = 10, rect_top = 20, rect_width = 500, rect_height = 500\<rparr>"

definition noteSize :: "nat \<Rightarrow> real \<times> real" where
  "noteSize e = (100, 50)"

definition noteRectAt :: "real \<Rightarrow> real \<Rightarrow> domRect" where
  "noteRectAt l t = \<lparr>rect_left = l, rect_top = t, rect_width = 100, rect_height = 50\<rparr>"

definition oneNote :: ui_state where
  "oneNote = step (initializeUI [] []) (DblClick True 110 70 board500 1000)"

text \<open>The same page once a drag of note 0 has started at (115, 75), 5 right and 5 below the
  note's corner.\<close>

definition oneNoteDragged :: ui_state where
  "oneNoteDragged = step oneNote (MouseDown 0 Elsewhere 115 75 (noteRectAt 110 70))"

text \<open>
  Two notes, the second one created by a double click at (40, 60), and a drag of note 0
  started as above.
\<close>

definition twoNotes :: ui_state where
  "twoNotes = run (initializeUI [] [])
     [DblClick True 110 70 board500 1000, DblClick True 40 60 board500 2000,
      MouseDown 0 Elsewhere 115 75 (noteRectAt 110 70)]"

text \<open>
  What happens during that drag: the pointer goes beyond the right edge of the board, the
  quote button is clicked, a mouse button goes down on the delete button, and the pointer
  comes back.
\<close>

definition dragTrace :: "event list" where
  "dragTrace = [MouseMove 535 35 board500 noteSize, QuoteClick 0,
                MouseDown 0 DeleteButton 400 30 (noteRectAt 410 30),
                MouseMove 215 135 board500 noteSize]"

text \<open>Three notes, created at times 100, 300 and 200.\<close>

definition threeNotes :: ui_state where
  "threeNotes = run (initializeUI [] [])
     [DblClick True 110 70 board500 100, DblClick True 40 60 board500 300,
      DblClick True 310 420 board500 200]"

text \<open>
  What happens while note 0 fades out after a click on its delete button: an edit, a
  pointer movement and a tick of the auto-save timer.
\<close>

definition deleteTrace :: "event list" where
  "deleteTrace = [Input 0 ''buy milk'', MouseMove 535 35 board500 noteSize, IntervalFires 0]"

text \<open>
  What happens among the three notes after a failed quote request of note 0, none of it
  touching the button of note 0: an edit of note 0, a quote request of note 1 that fails
  too, a pointer movement, the timeout that restores the button of note 1, and a tick of
  the auto-save timer.
\<close>

definition quietTrace :: "event list" where
  "quietTrace = [Input 0 ''buy milk'', QuoteClick 1, QuoteSettled 1 Rejected,
                 MouseMove 535 35 board500 noteSize, TimeoutFires 1, IntervalFires 0]"

text \<open>
  Two quote requests of note 0, the second one clicked while the first is pending; both
  fail, and the timeout of the first failure fires.
\<close>

definition overlapTrace :: "event list" where
  "overlapTrace = [QuoteClick 0, QuoteClick 0, QuoteSettled 0 Rejected, QuoteSettled 0 Rejected,
                   TimeoutFires 0]"

text \<open>
  A quote request of note 0 that fails, with a click on a sort button after the failure,
  and with the click on the sort button while the fetch is pending.
\<close>

definition sortAfterFailure :: "event list" where
  "sortAfterFailure = [QuoteClick 0, QuoteSettled 0 Rejected, AscendingClick]"

definition sortWhilePending :: "event list" where
  "sortWhilePending = [QuoteClick 0, AscendingClick, QuoteSettled 0 Rejected]"

section \<open>Properties\<close>

subsection \<open>Updates of the store and of the elements\<close>

lemma keepWithin_nonneg: "0 \<le> keepWithin v limit"
  by (simp add: keepWithin_def)

lemma updElement_proj [simp]:
  "heap (updElement e f s) = heap s"
  "manager (updElement e f s) = manager s"
  "timeouts (updElement e f s) = timeouts s"
  "intervals (updElement e f s) = intervals s"
  "saved (updElement e f s) = saved s"
  "exported (updElement e f s) = exported s"
  "length (elements (updElement e f s)) = length (elements s)"
  by (simp_all add: updElement_def)

lemma updNote_proj [simp]:
  "elements (updNote r f s) = elements s"
  "manager (updNote r f s) = manager s"
  "timeouts (updNote r f s) = timeouts s"
  "intervals (updNote r f s) = intervals s"
  "saved (updNote r f s) = saved s"
  "exported (updNote r f s) = exported s"
  "length (heap (updNote r f s)) = length (heap s)"
  by (simp_all add: updNote_def)

lemma list_update_out: "\<not> i < length xs \<Longrightarrow> xs[i := v] = xs"
  by (simp add: list_update_beyond)

lemma updElement_nth:
  "elements (updElement e f s) ! i =
     (if i = e \<and> e < length (elements s) then f (elements s ! e) else elements s ! i)"
  by (cases "e < length (elements s)") (simp_all add: updElement_def nth_list_update list_update_out)

lemma updNote_nth:
  "heap (updNote r f s) ! q = (if q = r \<and> r < length (heap s) then f (heap s ! r) else heap s ! q)"
  by (cases "r < length (heap s)") (simp_all add: updNote_def nth_list_update list_update_out)

subsection \<open>Every event keeps the state well-formed\<close>

lemma wfElement_mono: "wfElement n el \<Longrightarrow> n \<le> k \<Longrightarrow> wfElement k el"
  by (auto simp: wfElement_def)

lemma wellFormed_updElement:
  assumes "wellFormed s" and "\<And>el. wfElement (length (heap s)) el \<Longrightarrow> wfElement (length (heap s)) (f el)"
  shows "wellFormed (updElement e f s)"
proof (cases "e < length (elements s)")
  case True
  then have "elements s ! e \<in> set (elements s)" by simp
  with assms have "wfElement (length (heap s)) (f (elements s ! e))"
    by (simp add: wellFormed_def list_all_iff)
  moreover have "set ((elements s)[e := f (elements s ! e)]) \<subseteq>
      insert (f (elements s ! e)) (set (elements s))"
    by (rule set_update_subset_insert)
  ultimately show ?thesis
    using assms(1) by (auto simp: wellFormed_def list_all_iff updElement_def)
next
  case False
  then have "(elements s)[e := f (elements s ! e)] = elements s" by (rule list_update_out)
  then show ?thesis using assms(1) by (simp add: wellFormed_def updElement_def)
qed

lemma wellFormed_updNote: "wellFormed s \<Longrightarrow> wellFormed (updNote r f s)"
  by (simp add: wellFormed_def)

lemma foldl_invariant:
  assumes "P s" and "\<And>t e. P t \<Longrightarrow> P (g t e)"
  shows "P (foldl g s es)"
  using assms(1) by (induction es arbitrary: s) (simp_all add: assms(2))

lemma funpow_invariant:
  assumes "P s" and "\<And>t. P t \<Longrightarrow> P (g t)"
  shows "P ((g ^^ n) s)"
  by (induction n) (simp_all add: assms)

lemma sortLoop_length [simp]: "length (sortLoop x y rs h) = length h"
  by (induction rs arbitrary: y h) simp_all

lemma wellFormed_contentInput: "wellFormed s \<Longrightarrow> wellFormed (contentInput e txt s)"
  by (simp add: contentInput_def wellFormed_updNote)

lemma wellFormed_deleteNote: "wellFormed s \<Longrightarrow> wellFormed (deleteNote e s)"
  unfolding deleteNote_def by (rule wellFormed_updElement) (simp_all add: wfElement_def)

lemma wellFormed_animationendListener: "wellFormed s \<Longrightarrow> wellFormed (animationendListener e s)"
proof -
  assume "wellFormed s"
  then have "wellFormed (updElement e (\<lambda>el. el\<lparr>attached := False\<rparr>) s)"
    by (rule wellFormed_updElement) (simp add: wfElement_def)
  then show ?thesis
    by (simp add: animationendListener_def wellFormed_def removeNote_def list_all_iff)
qed

lemma wellFormed_animationend: "wellFormed s \<Longrightarrow> wellFormed (animationend e s)"
  unfolding animationend_def by (rule funpow_invariant) (simp_all add: wellFormed_animationendListener)

lemma wellFormed_quoteClick: "wellFormed s \<Longrightarrow> wellFormed (quoteClick e s)"
  unfolding quoteClick_def by (rule wellFormed_updElement) (simp_all add: wfElement_def)

lemma wellFormed_restoreIcon: "wellFormed s \<Longrightarrow> wellFormed (restoreIcon e s)"
  unfolding restoreIcon_def by (rule wellFormed_updElement) (simp_all add: wfElement_def)

lemma wellFormed_timeouts_update: "wellFormed s \<Longrightarrow> wellFormed (s\<lparr>timeouts := ts\<rparr>)"
  by (simp add: wellFormed_def)

lemma wellFormed_quoteSettled: "wellFormed s \<Longrightarrow> quoteSettled e res s = Inr s' \<Longrightarrow> wellFormed s'"
proof -
  assume w: "wellFormed s" and q: "quoteSettled e res s = Inr s'"
  have a: "wellFormed (updElement e (\<lambda>el. el\<lparr>quoteButton := Bulb\<rparr>) (updNote r f s))" for r f
    by (rule wellFormed_updElement) (simp_all add: wfElement_def wellFormed_updNote w)
  have b: "wellFormed (updElement e (\<lambda>el. el\<lparr>quoteButton := Cross\<rparr>) s)"
    by (rule wellFormed_updElement) (simp_all add: wfElement_def w)
  from q show ?thesis
    using a wellFormed_timeouts_update [OF b]
    by (auto simp: quoteSettled_def Let_def split: sum.splits)
qed

lemma wellFormed_mousedown: "wellFormed s \<Longrightarrow> wellFormed (mousedown e tgt cx cy nr s)"
proof (cases "tgt = DeleteButton \<or> tgt = QuoteButton \<or> tgt = ContentElement")
  case True
  then show "wellFormed s \<Longrightarrow> ?thesis" by (simp add: mousedown_def)
next
  case False
  assume "wellFormed s"
  then have "wellFormed (updElement e (\<lambda>el. el\<lparr>isDragging := True,
       dragOffsetX := Some (cx - rect_left nr), dragOffsetY := Some (cy - rect_top nr),
       noteActive := True\<rparr>) s)"
    by (rule wellFormed_updElement) (simp add: wfElement_def)
  with False show ?thesis by (simp add: mousedown_def)
qed

lemma wellFormed_mousemove: "wellFormed s \<Longrightarrow> wellFormed (mousemove e cx cy b w h s)"
  by (simp add: mousemove_def Let_def wellFormed_updNote split: option.splits)

lemma wellFormed_mouseup: "wellFormed s \<Longrightarrow> wellFormed (mouseup e s)"
proof -
  assume "wellFormed s"
  then have "wellFormed (updElement e (\<lambda>el. el\<lparr>isDragging := False, noteActive := False\<rparr>) s)"
    by (rule wellFormed_updElement) (simp add: wfElement_def)
  with \<open>wellFormed s\<close> show ?thesis by (simp add: mouseup_def)
qed

lemma wellFormed_createNewNote: "wellFormed s \<Longrightarrow> createNewNote x y b now s = Inr s' \<Longrightarrow> wellFormed s'"
proof -
  assume w: "wellFormed s" and c: "createNewNote x y b now s = Inr s'"
  have old: "wfElement (Suc (length (heap s))) el" if "el \<in> set (elements s)" for el
    using w that by (auto simp: wellFormed_def list_all_iff intro: wfElement_mono)
  have new: "wfElement (Suc (length (heap s)))
      ((setupNoteEventListeners (createElement (length (heap s))))\<lparr>attached := True\<rparr>)"
    by (simp add: wfElement_def setupNoteEventListeners_def createElement_def)
  from w have fresh: "length (heap s) \<notin> set (manager s)"
    by (auto simp: wellFormed_def list_all_iff)
  from w have refs: "r < Suc (length (heap s))" if "r \<in> set (manager s)" for r
    using that by (auto simp: wellFormed_def list_all_iff intro: less_SucI)
  from c fresh have "s' = s\<lparr>heap := heap s @ [createNote now [] (x - rect_left b) (y - rect_top b)],
      manager := manager s @ [length (heap s)],
      elements := elements s @
        [(setupNoteEventListeners (createElement (length (heap s))))\<lparr>attached := True\<rparr>]\<rparr>"
    by (simp add: createNewNote_def Let_def addNote_def)
  then show ?thesis
    using w old new fresh refs by (auto simp: wellFormed_def list_all_iff)
qed

lemma createNewNote_succeeds: "wellFormed s \<Longrightarrow> \<exists>s'. createNewNote x y b now s = Inr s'"
  by (auto simp: createNewNote_def Let_def addNote_def wellFormed_def list_all_iff)

lemma wellFormed_exportNotes: "wellFormed s \<Longrightarrow> wellFormed (exportNotes s)"
  by (simp add: exportNotes_def wellFormed_def)

lemma wellFormed_saveNotesCallback: "wellFormed s \<Longrightarrow> wellFormed (saveNotesCallback s)"
  by (simp add: saveNotesCallback_def wellFormed_def)

lemma wellFormed_renderAllNotes: "wellFormed s \<Longrightarrow> wellFormed (renderAllNotes s)"
  by (auto simp: renderAllNotes_def wellFormed_def list_all_iff wfElement_def getAllNotes_def
      setupNoteEventListeners_def createElement_def)

lemma wellFormed_sort_manager:
  "wellFormed s \<Longrightarrow> wellFormed (s\<lparr>manager := sort_key f (manager s)\<rparr>)"
  by (simp add: wellFormed_def list_all_iff)

lemma wellFormed_heap_sortLoop: "wellFormed s \<Longrightarrow> wellFormed (s\<lparr>heap := sortLoop x y rs (heap s)\<rparr>)"
  by (simp add: wellFormed_def)

lemma wellFormed_sortByAsc: "wellFormed s \<Longrightarrow> wellFormed (sortByAsc s)"
  by (simp add: sortByAsc_def Let_def sortByAscending_def wellFormed_heap_sortLoop wellFormed_renderAllNotes
      wellFormed_sort_manager)

lemma wellFormed_sortByDesc: "wellFormed s \<Longrightarrow> wellFormed (sortByDesc s)"
  by (simp add: sortByDesc_def Let_def sortByDescending_def wellFormed_heap_sortLoop wellFormed_renderAllNotes
      wellFormed_sort_manager)

lemma wellFormed_runCallback: "wellFormed s \<Longrightarrow> wellFormed (runCallback cb s)"
  by (simp add: runCallback_def wellFormed_saveNotesCallback wellFormed_restoreIcon split: callback.splits)

lemma wellFormed_step: "wellFormed s \<Longrightarrow> wellFormed (step s ev)"
proof (cases ev)
  case (DblClick onb x y b now)
  assume "wellFormed s"
  then show ?thesis
    using DblClick wellFormed_createNewNote [of s x y b now]
    by (simp split: sum.splits)
next
  case (QuoteSettled e res)
  assume "wellFormed s"
  then show ?thesis
    using QuoteSettled wellFormed_quoteSettled [of s e res]
    by (simp split: sum.splits)
next
  case (MouseMove cx cy b sz)
  assume "wellFormed s"
  then have "wellFormed (foldl (\<lambda>t e. mousemove e cx cy b (fst (sz e)) (snd (sz e)) t) s es)" for es
    by (rule foldl_invariant) (rule wellFormed_mousemove)
  with MouseMove show ?thesis by simp
next
  case MouseUp
  assume "wellFormed s"
  then have "wellFormed (foldl (\<lambda>t e. mouseup e t) s es)" for es
    by (rule foldl_invariant) (rule wellFormed_mouseup)
  with MouseUp show ?thesis by simp
next
  case (TimeoutFires k)
  assume "wellFormed s"
  then show ?thesis
    using TimeoutFires by (simp add: wellFormed_runCallback wellFormed_timeouts_update)
qed (simp_all add: wellFormed_exportNotes wellFormed_sortByAsc wellFormed_sortByDesc wellFormed_contentInput wellFormed_deleteNote
      wellFormed_quoteClick wellFormed_mousedown wellFormed_animationend wellFormed_runCallback)

lemma wellFormed_run: "wellFormed s \<Longrightarrow> wellFormed (run s evs)"
  unfolding run_def by (rule foldl_invariant) (simp_all add: wellFormed_step)

lemma wellFormed_initializeUI:
  "distinct m \<Longrightarrow> list_all (\<lambda>r. r < length h) m \<Longrightarrow> wellFormed (initializeUI h m)"
  by (simp add: initializeUI_def setupAutoSave_def wellFormed_def)

subsection \<open>The listeners on the document\<close>

lemma mousemove_dragging:
  assumes "isDragging (elements s ! e)"
    and "dragOffsetX (elements s ! e) = Some ox"
    and "dragOffsetY (elements s ! e) = Some oy"
  shows "mousemove e cx cy b w h s =
     updNote (el_note (elements s ! e))
       (updatePosition (keepWithin (cx - rect_left b - ox) (rect_width b - w))
                       (keepWithin (cy - rect_top b - oy) (rect_height b - h))) s"
  using assms by (simp add: mousemove_def Let_def)

lemma updNote_heap_same:
  "r < length (heap s) \<Longrightarrow> heap (updNote r f s) ! r = f (heap s ! r)"
  by (simp add: updNote_def)

lemma keepWithin_upper: "0 \<le> limit \<Longrightarrow> keepWithin v limit \<le> limit"
  by (simp add: keepWithin_def)

lemma keepWithin_small_board: "limit < 0 \<Longrightarrow> keepWithin v limit = 0"
  by (simp add: keepWithin_def)

lemma keepWithin_id: "0 \<le> v \<Longrightarrow> v \<le> limit \<Longrightarrow> keepWithin v limit = v"
  by (simp add: keepWithin_def)

lemma keepWithin_nearest: "0 \<le> p \<Longrightarrow> p \<le> limit \<Longrightarrow> \<bar>keepWithin v limit - v\<bar> \<le> \<bar>p - v\<bar>"
  by (simp add: keepWithin_def max_def min_def)

lemma abs_le_square: "\<bar>a\<bar> \<le> \<bar>b\<bar> \<Longrightarrow> (a::real)\<^sup>2 \<le> b\<^sup>2"
  by (simp add: abs_le_square_iff)

lemma mousemove_frame [simp]:
  "elements (mousemove e cx cy b w h s) = elements s"
  "manager (mousemove e cx cy b w h s) = manager s"
  "length (heap (mousemove e cx cy b w h s)) = length (heap s)"
  "timeouts (mousemove e cx cy b w h s) = timeouts s"
  "intervals (mousemove e cx cy b w h s) = intervals s"
  "saved (mousemove e cx cy b w h s) = saved s"
  by (simp_all add: mousemove_def Let_def split: option.splits)

lemma mousemove_idle: "\<not> isDragging (elements s ! e) \<Longrightarrow> mousemove e cx cy b w h s = s"
  by (simp add: mousemove_def)

lemma mousemove_other_note:
  "\<not> (isDragging (elements s ! e) \<and> el_note (elements s ! e) = r) \<Longrightarrow>
   heap (mousemove e cx cy b w h s) ! r = heap s ! r"
  by (auto simp: mousemove_def Let_def updNote_nth split: option.splits)

lemma mousemove_content:
  "note_content (heap (mousemove e cx cy b w h s) ! r) = note_content (heap s ! r) \<and>
   note_timestamp (heap (mousemove e cx cy b w h s) ! r) = note_timestamp (heap s ! r)"
  by (simp add: mousemove_def Let_def updNote_nth updatePosition_def split: option.splits)

lemma moves_frame:
  "elements (foldl (\<lambda>t e. mousemove e cx cy b (fst (sz e)) (snd (sz e)) t) s es) = elements s \<and>
   manager (foldl (\<lambda>t e. mousemove e cx cy b (fst (sz e)) (snd (sz e)) t) s es) = manager s \<and>
   length (heap (foldl (\<lambda>t e. mousemove e cx cy b (fst (sz e)) (snd (sz e)) t) s es)) = length (heap s) \<and>
   timeouts (foldl (\<lambda>t e. mousemove e cx cy b (fst (sz e)) (snd (sz e)) t) s es) = timeouts s \<and>
   intervals (foldl (\<lambda>t e. mousemove e cx cy b (fst (sz e)) (snd (sz e)) t) s es) = intervals s"
  by (induction es arbitrary: s) simp_all

lemma moves_content:
  "note_content (heap (foldl (\<lambda>t e. mousemove e cx cy b (fst (sz e)) (snd (sz e)) t) s es) ! r)
     = note_content (heap s ! r) \<and>
   note_timestamp (heap (foldl (\<lambda>t e. mousemove e cx cy b (fst (sz e)) (snd (sz e)) t) s es) ! r)
     = note_timestamp (heap s ! r)"
  by (induction es arbitrary: s) (simp_all add: mousemove_content)

lemma moves_other_note:
  "\<forall>e\<in>set es. \<not> (isDragging (elements s ! e) \<and> el_note (elements s ! e) = r) \<Longrightarrow>
   heap (foldl (\<lambda>t e. mousemove e cx cy b (fst (sz e)) (snd (sz e)) t) s es) ! r = heap s ! r"
  by (induction es arbitrary: s) (simp_all add: mousemove_other_note)

lemma moves_idle:
  "\<forall>e\<in>set es. \<not> isDragging (elements s ! e) \<Longrightarrow>
   foldl (\<lambda>t e. mousemove e cx cy b (fst (sz e)) (snd (sz e)) t) s es = s"
  by (induction es arbitrary: s) (simp_all add: mousemove_idle)

lemma mouseup_frame [simp]:
  "heap (mouseup e s) = heap s"
  "manager (mouseup e s) = manager s"
  "length (elements (mouseup e s)) = length (elements s)"
  "timeouts (mouseup e s) = timeouts s"
  "intervals (mouseup e s) = intervals s"
  by (simp_all add: mouseup_def)

lemma mouseup_isDragging:
  "i < length (elements s) \<Longrightarrow>
   isDragging (elements (mouseup e s) ! i) = (i \<noteq> e \<and> isDragging (elements s ! i))"
  by (auto simp: mouseup_def updElement_nth)

lemma ups_frame:
  "length (elements (foldl (\<lambda>t e. mouseup e t) s es)) = length (elements s) \<and>
   heap (foldl (\<lambda>t e. mouseup e t) s es) = heap s \<and>
   manager (foldl (\<lambda>t e. mouseup e t) s es) = manager s \<and>
   timeouts (foldl (\<lambda>t e. mouseup e t) s es) = timeouts s \<and>
   intervals (foldl (\<lambda>t e. mouseup e t) s es) = intervals s"
  by (induction es arbitrary: s) simp_all

lemma ups_isDragging:
  "i < length (elements s) \<Longrightarrow>
   isDragging (elements (foldl (\<lambda>t e. mouseup e t) s es) ! i) =
     (i \<notin> set es \<and> isDragging (elements s ! i))"
  by (induction es arbitrary: s) (auto simp: mouseup_isDragging)

lemma after_mouseup_idle:
  "i < length (elements (step s MouseUp)) \<Longrightarrow> \<not> isDragging (elements (step s MouseUp) ! i)"
  by (simp add: ups_frame ups_isDragging)

subsection \<open>The sample session, evaluated\<close>

lemma oneNote_eq:
  "oneNote = \<lparr>heap = [\<lparr>note_content = [], note_x = 100, note_y = 50, note_timestamp = 1000\<rparr>],
     manager = [0],
     elements = [\<lparr>el_note = 0, isDragging = False, dragOffsetX = None, dragOffsetY = None,
                  quoteButton = Bulb, noteActive = False, noteFadeOut = False,
                  animationendListeners = 0, attached = True\<rparr>],
     timeouts = [], intervals = [(5000, SaveNotes)], saved = [], exported = []\<rparr>"
  by (simp add: oneNote_def initializeUI_def setupAutoSave_def createNewNote_def Let_def
      addNote_def createNote_def setupNoteEventListeners_def createElement_def board500_def)

lemma oneNoteDragged_eq:
  "oneNoteDragged = \<lparr>heap = [\<lparr>note_content = [], note_x = 100, note_y = 50, note_timestamp = 1000\<rparr>],
     manager = [0],
     elements = [\<lparr>el_note = 0, isDragging = True, dragOffsetX = Some 5, dragOffsetY = Some 5,
                  quoteButton = Bulb, noteActive = True, noteFadeOut = False,
                  animationendListeners = 0, attached = True\<rparr>],
     timeouts = [], intervals = [(5000, SaveNotes)], saved = [], exported = []\<rparr>"
  by (simp add: oneNoteDragged_def oneNote_eq onBoard_def mousedown_def updElement_def noteRectAt_def)

lemma idle_iff: "idle r s \<longleftrightarrow> (\<forall>el\<in>set (elements s). el_note el = r \<longrightarrow> \<not> isDragging el)"
  by (auto simp: idle_def list_all_iff)

lemma twoNotes_eq:
  "twoNotes = \<lparr>heap = [\<lparr>note_content = [], note_x = 100, note_y = 50, note_timestamp = 1000\<rparr>,
                       \<lparr>note_content = [], note_x = 30, note_y = 40, note_timestamp = 2000\<rparr>],
     manager = [0, 1],
     elements = [\<lparr>el_note = 0, isDragging = True, dragOffsetX = Some 5, dragOffsetY = Some 5,
                  quoteButton = Bulb, noteActive = True, noteFadeOut = False,
                  animationendListeners = 0, attached = True\<rparr>,
                 \<lparr>el_note = 1, isDragging = False, dragOffsetX = None, dragOffsetY = None,
                  quoteButton = Bulb, noteActive = False, noteFadeOut = False,
                  animationendListeners = 0, attached = True\<rparr>],
     timeouts = [], intervals = [(5000, SaveNotes)], saved = [], exported = []\<rparr>"
  by (simp add: twoNotes_def run_def initializeUI_def setupAutoSave_def createNewNote_def Let_def
      addNote_def createNote_def setupNoteEventListeners_def createElement_def board500_def
      onBoard_def mousedown_def updElement_def noteRectAt_def)

lemma twoNotes_moved:
  "step twoNotes (MouseMove 535 35 board500 noteSize) =
     twoNotes\<lparr>heap := [\<lparr>note_content = [], note_x = 400, note_y = 10, note_timestamp = 1000\<rparr>,
                       \<lparr>note_content = [], note_x = 30, note_y = 40, note_timestamp = 2000\<rparr>]\<rparr>"
  by (simp add: twoNotes_eq upt_rec mousemove_def Let_def updNote_def updatePosition_def
      keepWithin_def board500_def noteSize_def)

subsection \<open>What an event leaves of a closure\<close>

lemma updElement_dragVars:
  "(\<And>el. dragVars (f el) = dragVars el) \<Longrightarrow>
   dragVars (elements (updElement e' f s) ! e) = dragVars (elements s ! e)"
  by (simp add: updElement_nth)

lemma animationendListener_dragVars:
  "length (elements (animationendListener e' s)) = length (elements s) \<and>
   dragVars (elements (animationendListener e' s) ! e) = dragVars (elements s ! e)"
  by (simp add: animationendListener_def updElement_nth dragVars_def)

lemma funpow_dragVars:
  fixes g :: "ui_state \<Rightarrow> ui_state"
  assumes g: "\<And>t. length (elements (g t)) = length (elements t) \<and>
               dragVars (elements (g t) ! e) = dragVars (elements t ! e)"
  shows "length (elements ((g ^^ n) s)) = length (elements s) \<and>
         dragVars (elements ((g ^^ n) s) ! e) = dragVars (elements s ! e)"
proof (induction n)
  case 0
  show ?case by simp
next
  case (Suc n)
  with g [of "(g ^^ n) s"] show ?case by simp
qed

lemma animationend_dragVars:
  "length (elements (animationend e' s)) = length (elements s) \<and>
   dragVars (elements (animationend e' s) ! e) = dragVars (elements s ! e)"
  unfolding animationend_def by (rule funpow_dragVars) (rule animationendListener_dragVars)

lemma renderAllNotes_dragVars:
  "e < length (elements s) \<Longrightarrow>
   e < length (elements (renderAllNotes s)) \<and>
   dragVars (elements (renderAllNotes s) ! e) = dragVars (elements s ! e)"
  by (simp add: renderAllNotes_def nth_append dragVars_def)

lemma sortByAsc_dragVars:
  "e < length (elements s) \<Longrightarrow>
   e < length (elements (sortByAsc s)) \<and>
   dragVars (elements (sortByAsc s) ! e) = dragVars (elements s ! e)"
  using renderAllNotes_dragVars [of e "s\<lparr>manager := sortByAscending (heap s) (manager s)\<rparr>"]
  by (simp add: sortByAsc_def Let_def)

lemma sortByDesc_dragVars:
  "e < length (elements s) \<Longrightarrow>
   e < length (elements (sortByDesc s)) \<and>
   dragVars (elements (sortByDesc s) ! e) = dragVars (elements s ! e)"
  using renderAllNotes_dragVars [of e "s\<lparr>manager := sortByDescending (heap s) (manager s)\<rparr>"]
  by (simp add: sortByDesc_def Let_def)

lemma createNewNote_dragVars:
  "e < length (elements s) \<Longrightarrow> createNewNote x y b now s = Inr s' \<Longrightarrow>
   e < length (elements s') \<and> dragVars (elements s' ! e) = dragVars (elements s ! e)"
  by (auto simp: createNewNote_def Let_def nth_append split: sum.splits)

lemma quoteSettled_dragVars:
  "quoteSettled e' res s = Inr s' \<Longrightarrow>
   length (elements s') = length (elements s) \<and>
   dragVars (elements s' ! e) = dragVars (elements s ! e)"
  by (cases res)
    (auto simp: quoteSettled_def Let_def addRandomQuote_def updElement_nth dragVars_def
      split: if_splits)

lemma runCallback_dragVars:
  "length (elements (runCallback cb s)) = length (elements s) \<and>
   dragVars (elements (runCallback cb s) ! e) = dragVars (elements s ! e)"
  by (simp add: runCallback_def saveNotesCallback_def restoreIcon_def updElement_nth dragVars_def
      split: callback.splits)

lemma step_keeps_dragVars:
  assumes "e < length (elements s)" and "duringDrag e ev"
  shows "e < length (elements (step s ev)) \<and>
         dragVars (elements (step s ev) ! e) = dragVars (elements s ! e)"
proof (cases ev)
  case (DblClick onb x y b now)
  with assms(1) createNewNote_dragVars [of e s x y b now] show ?thesis
    by (simp split: sum.splits)
next
  case AscendingClick
  with assms(1) sortByAsc_dragVars show ?thesis by simp
next
  case DescendingClick
  with assms(1) sortByDesc_dragVars show ?thesis by simp
next
  case (QuoteSettled e' res)
  with assms(1) quoteSettled_dragVars [of e' res s] show ?thesis
    by (simp split: sum.splits)
next
  case (MouseDown e' tgt x y nr)
  with assms show ?thesis
    by (auto simp: mousedown_def updElement_nth)
next
  case (MouseMove x y b sz)
  with assms(1) show ?thesis by (simp add: moves_frame)
next
  case MouseUp
  with assms(2) show ?thesis by simp
next
  case (AnimationEnd e')
  with assms(1) animationend_dragVars [of e' s e] show ?thesis by simp
next
  case (TimeoutFires k)
  with assms(1)
    runCallback_dragVars [of "snd (timeouts s ! k)"
      "s\<lparr>timeouts := take k (timeouts s) @ drop (Suc k) (timeouts s)\<rparr>" e]
  show ?thesis by simp
next
  case (IntervalFires k)
  with assms(1) runCallback_dragVars [of "snd (intervals s ! k)" s e] show ?thesis by simp
qed (use assms(1) in \<open>simp_all add: exportNotes_def contentInput_def deleteNote_def quoteClick_def
      updElement_nth dragVars_def\<close>)

lemma run_keeps_dragVars:
  "e < length (elements s) \<Longrightarrow> list_all (duringDrag e) evs \<Longrightarrow>
   e < length (elements (run s evs)) \<and>
   dragVars (elements (run s evs) ! e) = dragVars (elements s ! e)"
proof (induction evs arbitrary: s)
  case Nil
  then show ?case by (simp add: run_def)
next
  case (Cons ev evs)
  from Cons.prems have a: "e < length (elements (step s ev))"
    and b: "dragVars (elements (step s ev) ! e) = dragVars (elements s ! e)"
    using step_keeps_dragVars [of e s ev] by simp_all
  from Cons.prems have "list_all (duringDrag e) evs" by simp
  with Cons.IH [OF a] b show ?case by (simp add: run_def)
qed

lemma dragTrace_run:
  "run oneNoteDragged dragTrace =
     oneNoteDragged\<lparr>heap := [\<lparr>note_content = [], note_x = 200, note_y = 110, note_timestamp = 1000\<rparr>],
        elements := [\<lparr>el_note = 0, isDragging = True, dragOffsetX = Some 5, dragOffsetY = Some 5,
                  quoteButton = Hourglass, noteActive = True, noteFadeOut = False,
                  animationendListeners = 0, attached = True\<rparr>]\<rparr>"
  by (simp add: dragTrace_def run_def oneNoteDragged_eq upt_rec mousemove_def Let_def updNote_def
      updatePosition_def keepWithin_def board500_def noteSize_def onBoard_def quoteClick_def
      updElement_def mousedown_def)

subsection \<open>The loop of the sort functions\<close>

lemma sortLoop_other: "r \<notin> set rs \<Longrightarrow> sortLoop x y rs h ! r = h ! r"
  by (induction rs arbitrary: y h) (auto simp: nth_list_update)

lemma sortLoop_nth:
  "distinct rs \<Longrightarrow> \<forall>r\<in>set rs. r < length h \<Longrightarrow> i < length rs \<Longrightarrow>
   sortLoop x y rs h ! (rs ! i) = updatePosition x (y + 50 * (real i + 1)) (h ! (rs ! i))"
proof (induction rs arbitrary: y h i)
  case Nil
  then show ?case by simp
next
  case (Cons r rs)
  show ?case
  proof (cases i)
    case 0
    with Cons.prems show ?thesis by (simp add: sortLoop_other)
  next
    case (Suc j)
    with Cons.prems have j: "j < length rs" and ne: "rs ! j \<noteq> r" by auto
    from Cons.prems have d: "distinct rs"
      and q: "\<forall>q\<in>set rs. q < length (h[r := updatePosition x (y + 50) (h ! r)])"
      by simp_all
    from Cons.IH [OF d q j, of "y + 50"] ne Suc show ?thesis
      by (simp add: algebra_simps)
  qed
qed

lemma sorted_layout:
  assumes "wellFormed s" and "i < length (manager s)"
  shows "heap (s\<lparr>manager := sort_key f (manager s), elements := els,
                 heap := sortLoop 550 0 (sort_key f (manager s)) (heap s)\<rparr>)
           ! (sort_key f (manager s) ! i)
         = updatePosition 550 (50 * (real i + 1)) (heap s ! (sort_key f (manager s) ! i))"
proof -
  from assms(1) have "distinct (sort_key f (manager s))"
    and "\<forall>r\<in>set (sort_key f (manager s)). r < length (heap s)"
    by (simp_all add: wellFormed_def list_all_iff)
  from sortLoop_nth [OF this, of i 550 0] assms(2) show ?thesis by simp
qed

lemma sortByAsc_layout:
  assumes "wellFormed s" and "i < length (manager s)"
  shows "manager (sortByAsc s) = sortByAscending (heap s) (manager s) \<and>
         heap (sortByAsc s) ! (manager (sortByAsc s) ! i) =
           updatePosition 550 (50 * (real i + 1)) (heap s ! (manager (sortByAsc s) ! i))"
  using sorted_layout [OF assms, of "\<lambda>q. note_timestamp (heap s ! q)"]
  by (simp add: sortByAsc_def Let_def renderAllNotes_def getAllNotes_def sortByAscending_def)

lemma sortByDesc_layout:
  assumes "wellFormed s" and "i < length (manager s)"
  shows "manager (sortByDesc s) = sortByDescending (heap s) (manager s) \<and>
         heap (sortByDesc s) ! (manager (sortByDesc s) ! i) =
           updatePosition 550 (50 * (real i + 1)) (heap s ! (manager (sortByDesc s) ! i))"
  using sorted_layout [OF assms, of "\<lambda>q. - note_timestamp (heap s ! q)"]
  by (simp add: sortByDesc_def Let_def renderAllNotes_def getAllNotes_def sortByDescending_def)

lemma threeNotes_heap:
  "heap threeNotes = [\<lparr>note_content = [], note_x = 100, note_y = 50, note_timestamp = 100\<rparr>,
                      \<lparr>note_content = [], note_x = 30, note_y = 40, note_timestamp = 300\<rparr>,
                      \<lparr>note_content = [], note_x = 300, note_y = 400, note_timestamp = 200\<rparr>]"
  "manager threeNotes = [0, 1, 2]"
  by (simp_all add: threeNotes_def run_def initializeUI_def setupAutoSave_def createNewNote_def
      Let_def addNote_def createNote_def board500_def)

lemma threeNotes_wellFormed: "wellFormed threeNotes"
  unfolding threeNotes_def
  by (rule wellFormed_run) (simp add: wellFormed_initializeUI)

lemma threeNotes_sorted:
  "manager (sortByAsc threeNotes) = [0, 2, 1]"
  "manager (sortByDesc threeNotes) = [1, 2, 0]"
  by (simp_all add: sortByAsc_def sortByDesc_def Let_def renderAllNotes_def sortByAscending_def
      sortByDescending_def threeNotes_heap)

subsection \<open>What an event leaves of the manager\<close>

lemma animationendListener_keeps:
  "el_note (elements s ! e) \<noteq> r \<Longrightarrow> r \<in> set (manager s) \<Longrightarrow>
   r \<in> set (manager (animationendListener e s)) \<and>
   el_note (elements (animationendListener e s) ! e) = el_note (elements s ! e)"
  by (simp add: animationendListener_def removeNote_def updElement_nth)

lemma animationend_keeps:
  assumes "el_note (elements s ! e) \<noteq> r" and "r \<in> set (manager s)"
  shows "r \<in> set (manager (animationend e s))"
proof -
  have "r \<in> set (manager ((animationendListener e ^^ n) s)) \<and>
        el_note (elements ((animationendListener e ^^ n) s) ! e) = el_note (elements s ! e)" for n
  proof (induction n)
    case 0
    with assms show ?case by simp
  next
    case (Suc n)
    with assms(1) animationendListener_keeps [of "(animationendListener e ^^ n) s" e r]
    show ?case by simp
  qed
  then show ?thesis by (simp add: animationend_def)
qed

lemma animationend_removes:
  assumes "0 < animationendListeners (elements s ! e)"
  shows "el_note (elements s ! e) \<notin> set (manager (animationend e s))"
proof -
  from assms obtain n where n: "animationendListeners (elements s ! e) = Suc n"
    by (cases "animationendListeners (elements s ! e)") simp_all
  let ?t = "(animationendListener e ^^ n) s"
  from funpow_dragVars [of "animationendListener e" e n s, OF animationendListener_dragVars]
  have "el_note (elements ?t ! e) = el_note (elements s ! e)"
    by (simp add: dragVars_def)
  moreover have "el_note (elements ?t ! e) \<notin> set (manager (animationendListener e ?t))"
    by (simp add: animationendListener_def removeNote_def)
  ultimately show ?thesis by (simp add: animationend_def n)
qed

lemma runCallback_manager [simp]: "manager (runCallback cb s) = manager s"
  by (simp add: runCallback_def saveNotesCallback_def restoreIcon_def split: callback.splits)

lemma step_keeps_note:
  assumes "r \<in> set (manager s)" and "\<not> completesTransition r s ev"
  shows "r \<in> set (manager (step s ev))"
proof (cases ev)
  case (DblClick onb x y b now)
  with assms(1) show ?thesis
    by (auto simp: createNewNote_def Let_def addNote_def split: sum.splits if_splits)
next
  case AscendingClick
  with assms(1) show ?thesis
    by (simp add: sortByAsc_def Let_def renderAllNotes_def sortByAscending_def)
next
  case DescendingClick
  with assms(1) show ?thesis
    by (simp add: sortByDesc_def Let_def renderAllNotes_def sortByDescending_def)
next
  case (QuoteSettled e res)
  with assms(1) show ?thesis
    by (cases res) (simp_all add: quoteSettled_def Let_def addRandomQuote_def)
next
  case (MouseMove x y b sz)
  with assms(1) show ?thesis by (simp add: moves_frame)
next
  case MouseUp
  with assms(1) show ?thesis by (simp add: ups_frame)
next
  case (AnimationEnd e)
  with assms animationend_keeps [of s e r] show ?thesis by auto
qed (use assms(1) in \<open>simp_all add: exportNotes_def contentInput_def deleteNote_def quoteClick_def
      mousedown_def\<close>)

lemma run_keeps_note:
  "r \<in> set (manager s) \<Longrightarrow> beforeTransitionEnd r s evs \<Longrightarrow> r \<in> set (manager (run s evs))"
proof (induction evs arbitrary: s)
  case Nil
  then show ?case by (simp add: run_def)
next
  case (Cons ev evs)
  from Cons.prems have "r \<in> set (manager (step s ev))"
    by (simp add: step_keeps_note)
  with Cons.IH [of "step s ev"] Cons.prems(2) show ?case by (simp add: run_def)
qed

lemma toJSON_member: "r \<in> set m \<Longrightarrow> serialize r (h ! r) \<in> set (toJSON h m)"
  by (simp add: toJSON_def)

lemma oneNote_deleting:
  "step oneNote (DeleteClick 0) =
     oneNote\<lparr>elements := [\<lparr>el_note = 0, isDragging = False, dragOffsetX = None, dragOffsetY = None,
                  quoteButton = Bulb, noteActive = False, noteFadeOut = True,
                  animationendListeners = 1, attached = True\<rparr>]\<rparr>"
  by (simp add: oneNote_eq onBoard_def deleteNote_def updElement_def)

lemma deleteTrace_run:
  "run (step oneNote (DeleteClick 0)) deleteTrace =
     oneNote\<lparr>heap := [\<lparr>note_content = ''buy milk'', note_x = 100, note_y = 50, note_timestamp = 1000\<rparr>],
        elements := [\<lparr>el_note = 0, isDragging = False, dragOffsetX = None, dragOffsetY = None,
                  quoteButton = Bulb, noteActive = False, noteFadeOut = True,
                  animationendListeners = 1, attached = True\<rparr>],
        saved := [[(0, ''buy milk'', 100, 50, 1000)]]\<rparr>"
  unfolding oneNote_deleting
  by (simp add: deleteTrace_def run_def oneNote_eq onBoard_def contentInput_def updNote_def
      updateContent_def upt_rec mousemove_def runCallback_def saveNotesCallback_def toJSON_def
      serialize_def)

lemma deleteTrace_before: "beforeTransitionEnd 0 (step oneNote (DeleteClick 0)) deleteTrace"
  unfolding oneNote_deleting
  by (simp add: deleteTrace_def)

subsection \<open>What an event leaves of a quote button and of the timers\<close>

lemma remove_nth_keeps:
  assumes "x \<in> set xs" and "xs ! k \<noteq> x"
  shows "x \<in> set (take k xs) \<or> x \<in> set (drop (Suc k) xs)"
proof (cases "k < length xs")
  case True
  then have "xs = take k xs @ xs ! k # drop (Suc k) xs"
    by (rule id_take_nth_drop)
  with assms(1) have "x \<in> set (take k xs @ xs ! k # drop (Suc k) xs)"
    by simp
  with assms(2) show ?thesis by auto
next
  case False
  with assms(1) show ?thesis by simp
qed

lemma ups_quoteButton:
  "quoteButton (elements (foldl (\<lambda>t e. mouseup e t) s es) ! e) = quoteButton (elements s ! e) \<and>
   attached (elements (foldl (\<lambda>t e. mouseup e t) s es) ! e) = attached (elements s ! e) \<and>
   el_note (elements (foldl (\<lambda>t e. mouseup e t) s es) ! e) = el_note (elements s ! e)"
  by (induction es arbitrary: s) (simp_all add: mouseup_def updElement_nth)

lemma animationendListener_quoteButton:
  "length (elements (animationendListener e' s)) = length (elements s) \<and>
   quoteButton (elements (animationendListener e' s) ! e) = quoteButton (elements s ! e) \<and>
   el_note (elements (animationendListener e' s) ! e) = el_note (elements s ! e) \<and>
   timeouts (animationendListener e' s) = timeouts s"
  by (simp add: animationendListener_def updElement_nth)

lemma animationendListener_attached:
  "attached (elements (animationendListener e' s) ! e) =
     (if e = e' \<and> e' < length (elements s) then False else attached (elements s ! e))"
  by (simp add: animationendListener_def updElement_nth)

lemma animationend_quoteButton:
  "length (elements (animationend e' s)) = length (elements s) \<and>
   quoteButton (elements (animationend e' s) ! e) = quoteButton (elements s ! e) \<and>
   el_note (elements (animationend e' s) ! e) = el_note (elements s ! e) \<and>
   timeouts (animationend e' s) = timeouts s"
proof -
  have "length (elements ((animationendListener e' ^^ n) s)) = length (elements s) \<and>
    quoteButton (elements ((animationendListener e' ^^ n) s) ! e) = quoteButton (elements s ! e) \<and>
    el_note (elements ((animationendListener e' ^^ n) s) ! e) = el_note (elements s ! e) \<and>
    timeouts ((animationendListener e' ^^ n) s) = timeouts s" for n
  proof (induction n)
    case 0
    show ?case by simp
  next
    case (Suc n)
    with animationendListener_quoteButton [of e' "(animationendListener e' ^^ n) s" e]
    show ?case by simp
  qed
  then show ?thesis by (simp add: animationend_def)
qed

lemma animationend_attached_other:
  "e' \<noteq> e \<Longrightarrow> attached (elements (animationend e' s) ! e) = attached (elements s ! e)"
proof -
  assume ne: "e' \<noteq> e"
  have "attached (elements ((animationendListener e' ^^ n) s) ! e) = attached (elements s ! e)" for n
    using ne by (induction n) (simp_all add: animationendListener_attached)
  then show ?thesis by (simp add: animationend_def)
qed

lemma animationend_attached_le:
  assumes "attached (elements (animationend e' s) ! e)"
  shows "attached (elements s ! e)"
proof -
  have step: "attached (elements ((animationendListener e' ^^ n) s) ! e) \<Longrightarrow> attached (elements s ! e)"
    for n
  proof (induction n)
    case 0
    then show ?case by simp
  next
    case (Suc n)
    from Suc.prems have "attached (elements ((animationendListener e' ^^ n) s) ! e)"
      by (simp add: animationendListener_attached split: if_splits)
    then show ?case by (rule Suc.IH)
  qed
  from assms show ?thesis
    unfolding animationend_def by (rule step)
qed

lemma step_keeps_button:
  assumes "buttonShows e ic d s" and "\<not> touchesButton e s ev"
  shows "buttonShows e ic d (step s ev)"
proof (cases ev)
  case (DblClick onb x y b now)
  with assms(1) show ?thesis
    by (auto simp: buttonShows_def onBoard_def createNewNote_def Let_def nth_append
        split: sum.splits)
next
  case AscendingClick
  with assms(2) show ?thesis by simp
next
  case DescendingClick
  with assms(2) show ?thesis by simp
next
  case (QuoteSettled e' res)
  with assms show ?thesis
    by (cases res)
      (auto simp: buttonShows_def onBoard_def quoteSettled_def Let_def addRandomQuote_def
        updElement_nth)
next
  case (MouseMove x y b sz)
  with assms(1) show ?thesis by (simp add: buttonShows_def onBoard_def moves_frame)
next
  case MouseUp
  with assms(1) show ?thesis
    by (simp add: buttonShows_def onBoard_def ups_frame ups_quoteButton)
next
  case (AnimationEnd e')
  with assms animationend_quoteButton [of e' s e] animationend_attached_other [of e' e s]
  show ?thesis
    by (simp add: buttonShows_def onBoard_def)
next
  case (TimeoutFires k)
  show ?thesis
  proof (cases "k < length (timeouts s)")
    case True
    with assms(2) TimeoutFires have cb: "snd (timeouts s ! k) \<noteq> RestoreIcon e" by simp
    then have "timeouts s ! k \<noteq> (d, RestoreIcon e)" by auto
    with assms(1) remove_nth_keeps [of "(d, RestoreIcon e)" "timeouts s" k]
    have "(d, RestoreIcon e) \<in> set (take k (timeouts s) @ drop (Suc k) (timeouts s))"
      by (simp add: buttonShows_def)
    with assms(1) cb True TimeoutFires show ?thesis
      by (cases "snd (timeouts s ! k)")
        (simp_all add: buttonShows_def onBoard_def runCallback_def saveNotesCallback_def
          restoreIcon_def updElement_nth)
  next
    case False
    with assms(1) TimeoutFires show ?thesis by simp
  qed
next
  case (IntervalFires k)
  with assms show ?thesis
    by (cases "snd (intervals s ! k)")
      (auto simp: buttonShows_def onBoard_def runCallback_def saveNotesCallback_def
        restoreIcon_def updElement_nth)
qed (use assms in \<open>auto simp: buttonShows_def onBoard_def exportNotes_def contentInput_def
      deleteNote_def quoteClick_def mousedown_def updElement_nth\<close>)

lemma run_keeps_button:
  "buttonShows e ic d s \<Longrightarrow> buttonLeftAlone e s evs \<Longrightarrow> buttonShows e ic d (run s evs)"
proof (induction evs arbitrary: s)
  case Nil
  then show ?case by (simp add: run_def)
next
  case (Cons ev evs)
  from Cons.prems have "buttonShows e ic d (step s ev)"
    by (simp add: step_keeps_button)
  with Cons.IH [of "step s ev"] Cons.prems(2) show ?case by (simp add: run_def)
qed

lemma restore_fires:
  "e < length (elements t) \<Longrightarrow> k < length (timeouts t) \<Longrightarrow> snd (timeouts t ! k) = RestoreIcon e \<Longrightarrow>
   quoteButton (elements (step t (TimeoutFires k)) ! e) = Bulb"
  by (simp add: runCallback_def restoreIcon_def updElement_nth)

subsection \<open>One element on the board for every note\<close>

lemma onePerNote_iff:
  "onePerNote s \<longleftrightarrow>
     (\<forall>i j. onBoard i s \<and> onBoard j s \<and> el_note (elements s ! i) = el_note (elements s ! j)
        \<longrightarrow> i = j)"
  by (simp add: onePerNote_def list_all_iff onBoard_def Ball_def) blast

lemma onePerNote_shrink:
  assumes "onePerNote s" and "length (elements t) = length (elements s)"
    and "\<And>i. el_note (elements t ! i) = el_note (elements s ! i) \<and>
             (attached (elements t ! i) \<longrightarrow> attached (elements s ! i))"
  shows "onePerNote t"
  unfolding onePerNote_iff
proof (intro allI impI)
  fix i j
  assume h: "onBoard i t \<and> onBoard j t \<and> el_note (elements t ! i) = el_note (elements t ! j)"
  with assms(2) assms(3) [of i] assms(3) [of j]
  have "onBoard i s \<and> onBoard j s \<and> el_note (elements s ! i) = el_note (elements s ! j)"
    by (simp add: onBoard_def)
  with assms(1) show "i = j"
    unfolding onePerNote_iff by blast
qed

lemma onePerNote_updElement:
  assumes "onePerNote s"
    and "\<And>el. el_note (f el) = el_note el \<and> (attached (f el) \<longrightarrow> attached el)"
  shows "onePerNote (updElement e f s)"
  using assms(1) by (rule onePerNote_shrink) (simp_all add: updElement_nth assms(2))

lemma onePerNote_elements: "elements t = elements s \<Longrightarrow> onePerNote s \<Longrightarrow> onePerNote t"
  by (simp add: onePerNote_def)

lemma onePerNote_createNewNote:
  assumes "wellFormed s" and "onePerNote s" and "createNewNote x y b now s = Inr s'"
  shows "onePerNote s'"
proof -
  from assms(1) have fresh: "length (heap s) \<notin> set (manager s)"
    and old: "\<And>i. i < length (elements s) \<Longrightarrow> el_note (elements s ! i) < length (heap s)"
    by (auto simp: wellFormed_def list_all_iff wfElement_def)
  from assms(3) fresh have els: "elements s' = elements s @
      [(setupNoteEventListeners (createElement (length (heap s))))\<lparr>attached := True\<rparr>]"
    by (auto simp: createNewNote_def Let_def addNote_def)
  have new: "el_note ((setupNoteEventListeners (createElement (length (heap s))))\<lparr>attached := True\<rparr>)
      = length (heap s)"
    by (simp add: setupNoteEventListeners_def createElement_def)
  show ?thesis
    unfolding onePerNote_iff onBoard_def
  proof (intro allI impI)
    fix i j
    assume h: "(i < length (elements s') \<and> attached (elements s' ! i)) \<and>
      (j < length (elements s') \<and> attached (elements s' ! j)) \<and>
      el_note (elements s' ! i) = el_note (elements s' ! j)"
    show "i = j"
    proof (cases "i < length (elements s)")
      case True
      note i = this
      show ?thesis
      proof (cases "j < length (elements s)")
        case True
        with i h assms(2) show ?thesis
          unfolding onePerNote_iff onBoard_def els by (simp add: nth_append)
      next
        case False
        with h have "j = length (elements s)" by (simp add: els)
        with i h old [OF i] new show ?thesis by (simp add: els nth_append)
      qed
    next
      case False
      with h have i: "i = length (elements s)" by (simp add: els)
      show ?thesis
      proof (cases "j < length (elements s)")
        case True
        with i h old [OF True] new show ?thesis by (simp add: els nth_append)
      next
        case False
        with h have "j = length (elements s)" by (simp add: els)
        with i show ?thesis by simp
      qed
    qed
  qed
qed

lemma onePerNote_renderAllNotes:
  assumes "distinct (manager s)"
  shows "onePerNote (renderAllNotes s)"
  unfolding onePerNote_iff onBoard_def
proof (intro allI impI)
  fix i j
  let ?n = "length (elements s)"
  let ?els = "elements (renderAllNotes s)"
  assume h: "(i < length ?els \<and> attached (?els ! i)) \<and> (j < length ?els \<and> attached (?els ! j)) \<and>
    el_note (?els ! i) = el_note (?els ! j)"
  have off: "\<not> attached (?els ! k)" if "k < ?n" for k
    using that by (simp add: renderAllNotes_def nth_append)
  have on: "el_note (?els ! k) = manager s ! (k - ?n)" if "\<not> k < ?n" "k < length ?els" for k
    using that
    by (simp add: renderAllNotes_def getAllNotes_def nth_append setupNoteEventListeners_def
        createElement_def)
  from h off have i: "\<not> i < ?n" and j: "\<not> j < ?n" by blast+
  have len: "length ?els = ?n + length (manager s)"
    by (simp add: renderAllNotes_def getAllNotes_def)
  from h have "i < length ?els" and "j < length ?els" by blast+
  with i j have li: "i - ?n < length (manager s)" and lj: "j - ?n < length (manager s)"
    unfolding len by linarith+
  from h have "i < length ?els" and "j < length ?els"
    and "el_note (?els ! i) = el_note (?els ! j)" by blast+
  with on [OF i] on [OF j] have "manager s ! (i - ?n) = manager s ! (j - ?n)" by simp
  with assms li lj have "i - ?n = j - ?n" by (simp add: nth_eq_iff_index_eq)
  with i j show "i = j" by simp
qed

lemma onePerNote_sortByAsc: "wellFormed s \<Longrightarrow> onePerNote (sortByAsc s)"
proof -
  assume "wellFormed s"
  then have "distinct (manager (s\<lparr>manager := sortByAscending (heap s) (manager s)\<rparr>))"
    by (simp add: wellFormed_def sortByAscending_def)
  then have "onePerNote (renderAllNotes (s\<lparr>manager := sortByAscending (heap s) (manager s)\<rparr>))"
    by (rule onePerNote_renderAllNotes)
  then show ?thesis
    by (rule onePerNote_elements [rotated]) (simp add: sortByAsc_def Let_def)
qed

lemma onePerNote_sortByDesc: "wellFormed s \<Longrightarrow> onePerNote (sortByDesc s)"
proof -
  assume "wellFormed s"
  then have "distinct (manager (s\<lparr>manager := sortByDescending (heap s) (manager s)\<rparr>))"
    by (simp add: wellFormed_def sortByDescending_def)
  then have "onePerNote (renderAllNotes (s\<lparr>manager := sortByDescending (heap s) (manager s)\<rparr>))"
    by (rule onePerNote_renderAllNotes)
  then show ?thesis
    by (rule onePerNote_elements [rotated]) (simp add: sortByDesc_def Let_def)
qed

lemma onePerNote_runCallback: "onePerNote s \<Longrightarrow> onePerNote (runCallback cb s)"
proof (cases cb)
  case SaveNotes
  assume "onePerNote s"
  then show ?thesis
    by (rule onePerNote_elements [rotated]) (simp add: SaveNotes runCallback_def saveNotesCallback_def)
next
  case (RestoreIcon e)
  assume "onePerNote s"
  then have "onePerNote (updElement e (\<lambda>el. el\<lparr>quoteButton := Bulb\<rparr>) s)"
    by (rule onePerNote_updElement) simp
  with RestoreIcon show ?thesis by (simp add: runCallback_def restoreIcon_def)
qed

lemma onePerNote_step:
  assumes "wellFormed s" and "onePerNote s"
  shows "onePerNote (step s ev)"
proof (cases ev)
  case (DblClick onb x y b now)
  with assms onePerNote_createNewNote [of s x y b now] show ?thesis
    by (simp split: sum.splits)
next
  case ExportClick
  with assms(2) show ?thesis
    by (simp add: exportNotes_def onePerNote_def)
next
  case AscendingClick
  with assms(1) show ?thesis by (simp add: onePerNote_sortByAsc)
next
  case DescendingClick
  with assms(1) show ?thesis by (simp add: onePerNote_sortByDesc)
next
  case (Input e str)
  with assms(2) show ?thesis
    by (simp add: contentInput_def onePerNote_def)
next
  case (DeleteClick e)
  with assms(2) show ?thesis
    by (simp add: deleteNote_def onePerNote_updElement)
next
  case (QuoteClick e)
  with assms(2) show ?thesis
    by (simp add: quoteClick_def onePerNote_updElement)
next
  case (QuoteSettled e res)
  have "onePerNote t" if "quoteSettled e res s = Inr t" for t
    using assms(2)
  proof (rule onePerNote_shrink)
    from that show "length (elements t) = length (elements s)"
      by (cases res) (auto simp: quoteSettled_def Let_def addRandomQuote_def)
    from that show "el_note (elements t ! i) = el_note (elements s ! i) \<and>
        (attached (elements t ! i) \<longrightarrow> attached (elements s ! i))" for i
      by (cases res)
        (auto simp: quoteSettled_def Let_def addRandomQuote_def updElement_nth split: if_splits)
  qed
  with QuoteSettled assms(2) show ?thesis by (simp split: sum.splits)
next
  case (MouseDown e tgt x y nr)
  have "onePerNote (updElement e (\<lambda>el. el\<lparr>isDragging := True,
       dragOffsetX := Some (x - rect_left nr), dragOffsetY := Some (y - rect_top nr),
       noteActive := True\<rparr>) s)"
    using assms(2) by (rule onePerNote_updElement) simp
  with MouseDown assms(2) show ?thesis by (simp add: mousedown_def)
next
  case (MouseMove x y b sz)
  from assms(2) show ?thesis
    by (rule onePerNote_elements [rotated]) (simp add: MouseMove moves_frame)
next
  case MouseUp
  from assms(2) show ?thesis
    by (rule onePerNote_shrink) (simp_all add: MouseUp ups_frame ups_quoteButton)
next
  case (AnimationEnd e)
  have "onePerNote (animationend e s)"
    using assms(2)
    by (rule onePerNote_shrink) (auto simp: animationend_quoteButton dest: animationend_attached_le)
  with AnimationEnd assms(2) show ?thesis by simp
next
  case (TimeoutFires k)
  have "onePerNote (s\<lparr>timeouts := ts\<rparr>)" for ts
    using assms(2) by (simp add: onePerNote_def)
  with TimeoutFires assms(2) show ?thesis by (simp add: onePerNote_runCallback)
next
  case (IntervalFires k)
  with assms(2) show ?thesis by (simp add: onePerNote_runCallback)
qed

lemma onePerNote_run: "wellFormed s \<Longrightarrow> onePerNote s \<Longrightarrow> onePerNote (run s evs)"
proof (induction evs arbitrary: s)
  case Nil
  then show ?case by (simp add: run_def)
next
  case (Cons ev evs)
  from Cons.prems have "wellFormed (step s ev)" and "onePerNote (step s ev)"
    by (simp_all add: wellFormed_step onePerNote_step)
  with Cons.IH [of "step s ev"] show ?case by (simp add: run_def)
qed

lemma onePerNote_initializeUI: "onePerNote (initializeUI h m)"
  by (simp add: initializeUI_def setupAutoSave_def onePerNote_def)

lemma threeNotes_eq:
  "threeNotes = \<lparr>heap = [\<lparr>note_content = [], note_x = 100, note_y = 50, note_timestamp = 100\<rparr>,
             \<lparr>note_content = [], note_x = 30, note_y = 40, note_timestamp = 300\<rparr>,
             \<lparr>note_content = [], note_x = 300, note_y = 400, note_timestamp = 200\<rparr>],
     manager = [0, 1, 2],
     elements = [\<lparr>el_note = 0, isDragging = False, dragOffsetX = None, dragOffsetY = None,
                  quoteButton = Bulb, noteActive = False, noteFadeOut = False,
                  animationendListeners = 0, attached = True\<rparr>,
                 \<lparr>el_note = 1, isDragging = False, dragOffsetX = None, dragOffsetY = None,
                  quoteButton = Bulb, noteActive = False, noteFadeOut = False,
                  animationendListeners = 0, attached = True\<rparr>,
                 \<lparr>el_note = 2, isDragging = False, dragOffsetX = None, dragOffsetY = None,
                  quoteButton = Bulb, noteActive = False, noteFadeOut = False,
                  animationendListeners = 0, attached = True\<rparr>],
     timeouts = [], intervals = [(5000, SaveNotes)], saved = [], exported = []\<rparr>"
  by (simp add: threeNotes_def run_def initializeUI_def setupAutoSave_def createNewNote_def
      Let_def addNote_def createNote_def setupNoteEventListeners_def createElement_def
      board500_def)

lemma threeNotes_onePerNote: "onePerNote threeNotes"
  unfolding threeNotes_def
  by (rule onePerNote_run) (simp_all add: wellFormed_initializeUI onePerNote_initializeUI)

lemma threeNotes_failed:
  "step threeNotes (QuoteSettled 0 Rejected) = \<lparr>heap = [\<lparr>note_content = [], note_x = 100, note_y = 50, note_timestamp = 100\<rparr>,
             \<lparr>note_content = [], note_x = 30, note_y = 40, note_timestamp = 300\<rparr>,
             \<lparr>note_content = [], note_x = 300, note_y = 400, note_timestamp = 200\<rparr>],
     manager = [0, 1, 2],
     elements = [\<lparr>el_note = 0, isDragging = False, dragOffsetX = None, dragOffsetY = None,
                  quoteButton = Cross, noteActive = False, noteFadeOut = False,
                  animationendListeners = 0, attached = True\<rparr>,
                 \<lparr>el_note = 1, isDragging = False, dragOffsetX = None, dragOffsetY = None,
                  quoteButton = Bulb, noteActive = False, noteFadeOut = False,
                  animationendListeners = 0, attached = True\<rparr>,
                 \<lparr>el_note = 2, isDragging = False, dragOffsetX = None, dragOffsetY = None,
                  quoteButton = Bulb, noteActive = False, noteFadeOut = False,
                  animationendListeners = 0, attached = True\<rparr>],
     timeouts = [(1500, RestoreIcon 0)], intervals = [(5000, SaveNotes)], saved = [],
     exported = []\<rparr>"
  by (simp add: threeNotes_eq quoteSettled_def Let_def addRandomQuote_def updElement_def)

lemma quietTrace_alone: "buttonLeftAlone 0 (step threeNotes (QuoteSettled 0 Rejected)) quietTrace"
  unfolding threeNotes_failed
  by (simp add: quietTrace_def onBoard_def contentInput_def updNote_def updateContent_def
      quoteClick_def quoteSettled_def Let_def addRandomQuote_def updElement_def upt_rec
      mousemove_def runCallback_def restoreIcon_def)

lemma quietTrace_run:
  "run (step threeNotes (QuoteSettled 0 Rejected)) quietTrace = \<lparr>heap = [\<lparr>note_content = ''buy milk'', note_x = 100, note_y = 50, note_timestamp = 100\<rparr>,
             \<lparr>note_content = [], note_x = 30, note_y = 40, note_timestamp = 300\<rparr>,
             \<lparr>note_content = [], note_x = 300, note_y = 400, note_timestamp = 200\<rparr>],
     manager = [0, 1, 2],
     elements = [\<lparr>el_note = 0, isDragging = False, dragOffsetX = None, dragOffsetY = None,
                  quoteButton = Cross, noteActive = False, noteFadeOut = False,
                  animationendListeners = 0, attached = True\<rparr>,
                 \<lparr>el_note = 1, isDragging = False, dragOffsetX = None, dragOffsetY = None,
                  quoteButton = Bulb, noteActive = False, noteFadeOut = False,
                  animationendListeners = 0, attached = True\<rparr>,
                 \<lparr>el_note = 2, isDragging = False, dragOffsetX = None, dragOffsetY = None,
                  quoteButton = Bulb, noteActive = False, noteFadeOut = False,
                  animationendListeners = 0, attached = True\<rparr>],
     timeouts = [(1500, RestoreIcon 0)], intervals = [(5000, SaveNotes)],
     saved = [[(0, ''buy milk'', 100, 50, 100), (1, [], 30, 40, 300), (2, [], 300, 400, 200)]],
     exported = []\<rparr>"
  unfolding threeNotes_failed
  by (simp add: quietTrace_def run_def onBoard_def contentInput_def updNote_def updateContent_def
      quoteClick_def quoteSettled_def Let_def addRandomQuote_def updElement_def upt_rec
      mousemove_def runCallback_def restoreIcon_def saveNotesCallback_def toJSON_def
      serialize_def)

lemma animationend_intervals: "intervals (animationend e s) = intervals s"
proof -
  have "intervals ((animationendListener e ^^ n) s) = intervals s" for n
    by (induction n) (simp_all add: animationendListener_def)
  then show ?thesis by (simp add: animationend_def)
qed

lemma runCallback_intervals: "intervals (runCallback cb s) = intervals s"
  by (simp add: runCallback_def saveNotesCallback_def restoreIcon_def split: callback.splits)

lemma step_intervals: "intervals (step s ev) = intervals s"
proof (cases ev)
  case (DblClick onb x y b now)
  then show ?thesis
    by (auto simp: createNewNote_def Let_def split: sum.splits)
next
  case (QuoteSettled e res)
  then show ?thesis
    by (cases res) (simp_all add: quoteSettled_def Let_def addRandomQuote_def)
next
  case (MouseMove x y b sz)
  then show ?thesis by (simp add: moves_frame)
next
  case MouseUp
  then show ?thesis by (simp add: ups_frame)
qed (simp_all add: exportNotes_def sortByAsc_def sortByDesc_def Let_def renderAllNotes_def
      contentInput_def deleteNote_def quoteClick_def mousedown_def animationend_intervals
      runCallback_intervals)

lemma run_intervals: "intervals (run s evs) = intervals s"
  by (induction evs arbitrary: s) (simp_all add: run_def step_intervals)

section \<open>The claims\<close>

text \<open>
  Each claim of the specification, stated on the model above. A theorem with hypotheses is
  followed by its witness: the theorem used on the sample session.
\<close>

subsection \<open>C1: which position updates stay on the board\<close>

text \<open>
  Claim C1 says that creation at a click point, a drag and a sort all leave the note inside
  \<open>0 \<le> x \<le> boardWidth - noteWidth\<close>, \<open>0 \<le> y \<le> boardHeight - noteHeight\<close>. On the board
  of 500 by 500 with notes of 100 by 50 it fails for a note created by a double click at
  (460, 50) of the board and for the only note after a sort, which is put at (550, 50).
\<close>

theorem position_out_of_bounds:
  "\<not> withinBoard board500 100 50 (heap (step oneNote (DblClick True 470 70 board500 2000)) ! 1) \<and>
   \<not> withinBoard board500 100 50 (heap (step oneNote AscendingClick) ! 0)"
  by (simp add: oneNote_eq createNewNote_def Let_def addNote_def createNote_def board500_def
      withinBoard_def sortByAsc_def sortByAscending_def renderAllNotes_def getAllNotes_def
      updatePosition_def)

text \<open>
  Claim C1, amended. A drag applies a position inside the bounds read at that moment,
  whenever the board is at least as wide and as high as the note. \<open>createNewNote\<close> stores
  the click point relative to the board's corner as it is, and a sort stores
  \<open>(550, 50 * (i + 1))\<close> for the \<open>i\<close>-th note as it is; neither is clamped.
\<close>

theorem position_updates:
  "(isDragging (elements s ! e) \<and> dragOffsetX (elements s ! e) = Some ox \<and>
    dragOffsetY (elements s ! e) = Some oy \<and> el_note (elements s ! e) < length (heap s) \<and>
    w \<le> rect_width boardRect \<and> h \<le> rect_height boardRect
      \<longrightarrow> withinBoard boardRect w h
            (heap (mousemove e clientX clientY boardRect w h s) ! el_note (elements s ! e))) \<and>
   (createNewNote x y boardRect now s = Inr s'
      \<longrightarrow> manager s' = manager s @ [length (heap s)] \<and>
          note_x (heap s' ! length (heap s)) = x - rect_left boardRect \<and>
          note_y (heap s' ! length (heap s)) = y - rect_top boardRect) \<and>
   (wellFormed s \<and> i < length (manager s)
      \<longrightarrow> note_x (heap (sortByAsc s) ! (manager (sortByAsc s) ! i)) = 550 \<and>
          note_y (heap (sortByAsc s) ! (manager (sortByAsc s) ! i)) = 50 * (real i + 1) \<and>
          note_x (heap (sortByDesc s) ! (manager (sortByDesc s) ! i)) = 550 \<and>
          note_y (heap (sortByDesc s) ! (manager (sortByDesc s) ! i)) = 50 * (real i + 1))"
proof -
  have drag: "withinBoard boardRect w h
      (heap (mousemove e clientX clientY boardRect w h s) ! el_note (elements s ! e))"
    if "isDragging (elements s ! e)" "dragOffsetX (elements s ! e) = Some ox"
      "dragOffsetY (elements s ! e) = Some oy" "el_note (elements s ! e) < length (heap s)"
      "w \<le> rect_width boardRect" "h \<le> rect_height boardRect"
    using that
    by (simp add: withinBoard_def mousemove_dragging updNote_heap_same updatePosition_def
        keepWithin_nonneg keepWithin_upper)
  have create: "manager s' = manager s @ [length (heap s)] \<and>
      note_x (heap s' ! length (heap s)) = x - rect_left boardRect \<and>
      note_y (heap s' ! length (heap s)) = y - rect_top boardRect"
    if "createNewNote x y boardRect now s = Inr s'"
    using that
    by (auto simp: createNewNote_def Let_def addNote_def createNote_def split: if_splits)
  have sort: "note_x (heap (sortByAsc s) ! (manager (sortByAsc s) ! i)) = 550 \<and>
      note_y (heap (sortByAsc s) ! (manager (sortByAsc s) ! i)) = 50 * (real i + 1) \<and>
      note_x (heap (sortByDesc s) ! (manager (sortByDesc s) ! i)) = 550 \<and>
      note_y (heap (sortByDesc s) ! (manager (sortByDesc s) ! i)) = 50 * (real i + 1)"
    if "wellFormed s" "i < length (manager s)"
  proof -
    from sortByAsc_layout [OF that]
    have b: "heap (sortByAsc s) ! (manager (sortByAsc s) ! i) =
        updatePosition 550 (50 * (real i + 1)) (heap s ! (manager (sortByAsc s) ! i))"
      by blast
    from sortByDesc_layout [OF that]
    have d: "heap (sortByDesc s) ! (manager (sortByDesc s) ! i) =
        updatePosition 550 (50 * (real i + 1)) (heap s ! (manager (sortByDesc s) ! i))"
      by blast
    show ?thesis unfolding b d by (simp add: updatePosition_def)
  qed
  from drag create sort show ?thesis by blast
qed

theorem position_updates_witness:
  "isDragging (elements oneNoteDragged ! 0) \<and>
   dragOffsetX (elements oneNoteDragged ! 0) = Some 5 \<and>
   dragOffsetY (elements oneNoteDragged ! 0) = Some 5 \<and>
   el_note (elements oneNoteDragged ! 0) < length (heap oneNoteDragged) \<and>
   100 \<le> rect_width board500 \<and> 50 \<le> rect_height board500 \<and>
   withinBoard board500 100 50 (heap (mousemove 0 535 35 board500 100 50 oneNoteDragged) ! 0) \<and>
   createNewNote 470 70 board500 2000 oneNote = Inr (step oneNote (DblClick True 470 70 board500 2000)) \<and>
   note_x (heap (step oneNote (DblClick True 470 70 board500 2000)) ! 1) = 460 \<and>
   note_y (heap (step oneNote (DblClick True 470 70 board500 2000)) ! 1) = 50 \<and>
   wellFormed threeNotes \<and> 2 < length (manager threeNotes) \<and>
   note_x (heap (sortByAsc threeNotes) ! 1) = 550 \<and>
   note_y (heap (sortByAsc threeNotes) ! 1) = 150"
proof -
  have d: "isDragging (elements oneNoteDragged ! 0)"
    "dragOffsetX (elements oneNoteDragged ! 0) = Some 5"
    "dragOffsetY (elements oneNoteDragged ! 0) = Some 5"
    "el_note (elements oneNoteDragged ! 0) < length (heap oneNoteDragged)"
    "el_note (elements oneNoteDragged ! 0) = 0"
    "100 \<le> rect_width board500" "50 \<le> rect_height board500"
    by (simp_all add: oneNoteDragged_eq board500_def)
  have c: "createNewNote 470 70 board500 2000 oneNote =
      Inr (step oneNote (DblClick True 470 70 board500 2000))"
    "length (heap oneNote) = 1"
    by (simp_all add: oneNote_eq createNewNote_def Let_def addNote_def)
  have l: "2 < length (manager threeNotes)" "manager (sortByAsc threeNotes) ! 2 = 1"
    by (simp_all add: threeNotes_heap threeNotes_sorted)
  note th1 = position_updates [where s = oneNoteDragged and e = 0 and ox = 5 and oy = 5
      and w = 100 and h = 50 and boardRect = board500 and clientX = 535 and clientY = 35]
  note th2 = position_updates [where s = oneNote and x = 470 and y = 70 and boardRect = board500
      and now = 2000 and s' = "step oneNote (DblClick True 470 70 board500 2000)"]
  note th3 = position_updates [where s = threeNotes and i = 2]
  from th1 d
  have 1: "withinBoard board500 100 50 (heap (mousemove 0 535 35 board500 100 50 oneNoteDragged) ! 0)"
    by simp
  from th2 c
  have 2: "note_x (heap (step oneNote (DblClick True 470 70 board500 2000)) ! 1) = 460 \<and>
    note_y (heap (step oneNote (DblClick True 470 70 board500 2000)) ! 1) = 50"
    by (simp add: board500_def del: step.simps)
  from th3 l threeNotes_wellFormed
  have 3: "note_x (heap (sortByAsc threeNotes) ! 1) = 550 \<and>
    note_y (heap (sortByAsc threeNotes) ! 1) = 150"
    by simp
  from 1 2 3 d c l threeNotes_wellFormed show ?thesis by blast
qed

subsection \<open>C2: a sort lays the notes out in a cascade\<close>

text \<open>
  Claim C2. After \<open>sortByAsc\<close> and after \<open>sortByDesc\<close> the manager holds the notes in the
  order of the stable sort by timestamp, and the \<open>i\<close>-th note of that order (from 0) is at
  \<open>x = 550\<close> and \<open>y = 50 * (i + 1)\<close>: the same x for all notes, a y that grows by 50 per
  note, whatever position the note had before.
\<close>

theorem sort_cascade:
  assumes "wellFormed s" and "i < length (manager s)"
  shows "manager (sortByAsc s) = sortByAscending (heap s) (manager s) \<and>
         note_x (heap (sortByAsc s) ! (manager (sortByAsc s) ! i)) = 550 \<and>
         note_y (heap (sortByAsc s) ! (manager (sortByAsc s) ! i)) = 50 * (real i + 1) \<and>
         manager (sortByDesc s) = sortByDescending (heap s) (manager s) \<and>
         note_x (heap (sortByDesc s) ! (manager (sortByDesc s) ! i)) = 550 \<and>
         note_y (heap (sortByDesc s) ! (manager (sortByDesc s) ! i)) = 50 * (real i + 1)"
proof -
  from sortByAsc_layout [OF assms]
  have a: "manager (sortByAsc s) = sortByAscending (heap s) (manager s)"
    and b: "heap (sortByAsc s) ! (manager (sortByAsc s) ! i) =
      updatePosition 550 (50 * (real i + 1)) (heap s ! (manager (sortByAsc s) ! i))"
    by blast+
  from sortByDesc_layout [OF assms]
  have c: "manager (sortByDesc s) = sortByDescending (heap s) (manager s)"
    and d: "heap (sortByDesc s) ! (manager (sortByDesc s) ! i) =
      updatePosition 550 (50 * (real i + 1)) (heap s ! (manager (sortByDesc s) ! i))"
    by blast+
  have "note_x (heap (sortByAsc s) ! (manager (sortByAsc s) ! i)) = 550"
    and "note_y (heap (sortByAsc s) ! (manager (sortByAsc s) ! i)) = 50 * (real i + 1)"
    and "note_x (heap (sortByDesc s) ! (manager (sortByDesc s) ! i)) = 550"
    and "note_y (heap (sortByDesc s) ! (manager (sortByDesc s) ! i)) = 50 * (real i + 1)"
    unfolding b d by (simp_all add: updatePosition_def)
  with a c show ?thesis by blast
qed

theorem sort_cascade_witness:
  "wellFormed threeNotes \<and> 1 < length (manager threeNotes) \<and>
   manager (sortByAsc threeNotes) = [0, 2, 1] \<and>
   note_x (heap (sortByAsc threeNotes) ! 2) = 550 \<and>
   note_y (heap (sortByAsc threeNotes) ! 2) = 100 \<and>
   manager (sortByDesc threeNotes) = [1, 2, 0] \<and>
   note_x (heap (sortByDesc threeNotes) ! 2) = 550 \<and>
   note_y (heap (sortByDesc threeNotes) ! 2) = 100 \<and>
   note_x (heap threeNotes ! 2) = 300 \<and> note_y (heap threeNotes ! 2) = 400"
proof -
  have l: "1 < length (manager threeNotes)" by (simp add: threeNotes_heap)
  from sort_cascade [OF threeNotes_wellFormed l] l threeNotes_wellFormed
  show ?thesis by (simp add: threeNotes_sorted threeNotes_heap)
qed

subsection \<open>C3: the position a drag applies is clamped\<close>

text \<open>
  Claim C3. On every pointer movement of a drag, with the board's bounds and the note's
  rendered size read at that instant, the position the mousemove listener applies has
  \<open>0 \<le> x\<close> and \<open>0 \<le> y\<close>; where the board is at least as wide (high) as the note,
  \<open>x \<le> boardWidth - noteWidth\<close> (\<open>y \<le> boardHeight - noteHeight\<close>); and where the board
  is narrower (lower) than the note, the coordinate is 0, not a negative bound.
\<close>

theorem drag_position_clamped:
  assumes "isDragging (elements s ! e)"
    and "dragOffsetX (elements s ! e) = Some ox"
    and "dragOffsetY (elements s ! e) = Some oy"
    and "el_note (elements s ! e) < length (heap s)"
  shows "(let n = heap (mousemove e clientX clientY boardRect offsetWidth offsetHeight s) ! el_note (elements s ! e)
          in 0 \<le> note_x n \<and> 0 \<le> note_y n \<and>
             (offsetWidth \<le> rect_width boardRect \<longrightarrow> note_x n \<le> rect_width boardRect - offsetWidth) \<and>
             (offsetHeight \<le> rect_height boardRect \<longrightarrow> note_y n \<le> rect_height boardRect - offsetHeight) \<and>
             (rect_width boardRect < offsetWidth \<longrightarrow> note_x n = 0) \<and>
             (rect_height boardRect < offsetHeight \<longrightarrow> note_y n = 0))"
  using assms
  by (simp add: mousemove_dragging updNote_heap_same updatePosition_def keepWithin_nonneg
      keepWithin_upper keepWithin_small_board)

theorem drag_position_clamped_witness:
  "isDragging (elements oneNoteDragged ! 0) \<and>
   dragOffsetX (elements oneNoteDragged ! 0) = Some 5 \<and>
   dragOffsetY (elements oneNoteDragged ! 0) = Some 5 \<and>
   el_note (elements oneNoteDragged ! 0) < length (heap oneNoteDragged) \<and>
   note_x (heap (mousemove 0 535 35 board500 100 50 oneNoteDragged) ! 0) = 400 \<and>
   note_y (heap (mousemove 0 535 35 board500 100 50 oneNoteDragged) ! 0) = 10 \<and>
   note_x (heap (mousemove 0 535 35 board500 600 50 oneNoteDragged) ! 0) = 0"
  using drag_position_clamped [of oneNoteDragged 0 5 5 535 35 board500 100 50]
    drag_position_clamped [of oneNoteDragged 0 5 5 535 35 board500 600 50]
  by (simp add: oneNoteDragged_eq mousemove_def Let_def updNote_def updatePosition_def
      keepWithin_def board500_def)

subsection \<open>C4: a deleted note stays in the manager until its transition ends\<close>

text \<open>
  Claim C4. A click on the delete button leaves the manager's collection as it is. Through
  every trace of events that follows and contains no animationend of an element showing the
  note, the manager still contains the note, its serialization is part of \<open>toJSON\<close>, and
  a tick of the auto-save timer hands exactly that \<open>toJSON\<close> to the persistence
  collaborator. The animationend of the element is what removes the note.
\<close>

theorem delete_waits_for_transition:
  assumes "r \<in> set (manager s)" and "onBoard e s" and "el_note (elements s ! e) = r"
    and "beforeTransitionEnd r (step s (DeleteClick e)) evs"
  shows "(let t = run (step s (DeleteClick e)) evs
          in r \<in> set (manager t) \<and>
             serialize r (heap t ! r) \<in> set (toJSON (heap t) (manager t)) \<and>
             saved (saveNotesCallback t) = saved t @ [toJSON (heap t) (manager t)]) \<and>
         manager (step s (DeleteClick e)) = manager s \<and>
         r \<notin> set (manager (step (step s (DeleteClick e)) (AnimationEnd e)))"
proof -
  let ?d = "step s (DeleteClick e)"
  from assms(2) have d: "?d = deleteNote e s" by simp
  then have m: "manager ?d = manager s" by (simp add: deleteNote_def)
  with assms(1) have "r \<in> set (manager ?d)" by simp
  from run_keeps_note [OF this assms(4)]
  have kept: "r \<in> set (manager (run ?d evs))" .
  from assms(2,3) have "onBoard e ?d" and "el_note (elements ?d ! e) = r"
    and "animationendListeners (elements ?d ! e) = Suc (animationendListeners (elements s ! e))"
    by (simp_all add: onBoard_def deleteNote_def updElement_nth)
  with animationend_removes [of ?d e]
  have gone: "r \<notin> set (manager (step ?d (AnimationEnd e)))"
    by (simp del: step.simps(6))
  from kept m gone show ?thesis
    by (simp add: Let_def toJSON_member saveNotesCallback_def del: step.simps)
qed

theorem delete_waits_for_transition_witness:
  "0 \<in> set (manager oneNote) \<and> onBoard 0 oneNote \<and> el_note (elements oneNote ! 0) = 0 \<and>
   beforeTransitionEnd 0 (step oneNote (DeleteClick 0)) deleteTrace \<and>
   manager (run (step oneNote (DeleteClick 0)) deleteTrace) = [0] \<and>
   saved (run (step oneNote (DeleteClick 0)) deleteTrace) = [[(0, ''buy milk'', 100, 50, 1000)]] \<and>
   manager (step (step oneNote (DeleteClick 0)) (AnimationEnd 0)) = []"
proof -
  have a: "0 \<in> set (manager oneNote)" "onBoard 0 oneNote" "el_note (elements oneNote ! 0) = 0"
    by (simp_all add: oneNote_eq onBoard_def)
  note th = delete_waits_for_transition [OF a deleteTrace_before]
  have m: "manager (run (step oneNote (DeleteClick 0)) deleteTrace) = [0]"
    and s: "saved (run (step oneNote (DeleteClick 0)) deleteTrace) = [[(0, ''buy milk'', 100, 50, 1000)]]"
    unfolding deleteTrace_run by (simp_all add: oneNote_eq)
  have "manager (step oneNote (DeleteClick 0)) = [0]"
    unfolding oneNote_deleting by (simp add: oneNote_eq)
  with th have "set (manager (step (step oneNote (DeleteClick 0)) (AnimationEnd 0))) \<subseteq> {0}"
    "0 \<notin> set (manager (step (step oneNote (DeleteClick 0)) (AnimationEnd 0)))"
    unfolding oneNote_deleting
    by (simp_all add: oneNote_eq onBoard_def animationend_def animationendListener_def
        removeNote_def updElement_def)
  then have g: "manager (step (step oneNote (DeleteClick 0)) (AnimationEnd 0)) = []"
    by (cases "manager (step (step oneNote (DeleteClick 0)) (AnimationEnd 0))") auto
  from a deleteTrace_before m s g show ?thesis by blast
qed

subsection \<open>C5: a failed quote request\<close>

text \<open>
  Claim C5 says that after a failed quote request the note's quote control shows the error
  indicator for the fixed interval of 1.5 seconds before it reverts. It fails in three
  ways. When two requests of one note overlap, the timeout set by the first failure fires
  and restores the icon after the second failure, while the timeout of the second failure
  is still to come. When a sort button is clicked after the failure, the note gets a new
  element, number 1, whose quote button shows the original icon, while the error indicator
  is on the removed element and its timeout is still to come. When the sort button is
  clicked while the fetch is pending, the failure marks the removed element, and the
  note's control on the board never shows the error indicator.
\<close>

theorem quote_indicator_cut_short:
  "quoteButton (elements (run oneNote (take 4 overlapTrace)) ! 0) = Cross \<and>
   timeouts (run oneNote (take 4 overlapTrace)) = [(1500, RestoreIcon 0), (1500, RestoreIcon 0)] \<and>
   quoteButton (elements (run oneNote overlapTrace) ! 0) = Bulb \<and>
   timeouts (run oneNote overlapTrace) = [(1500, RestoreIcon 0)] \<and>
   \<not> buttonShows 0 Cross 1500 (run oneNote overlapTrace) \<and>
   \<not> onBoard 0 (run oneNote sortAfterFailure) \<and>
   onBoard 1 (run oneNote sortAfterFailure) \<and>
   el_note (elements (run oneNote sortAfterFailure) ! 1) = 0 \<and>
   quoteButton (elements (run oneNote sortAfterFailure) ! 1) = Bulb \<and>
   timeouts (run oneNote sortAfterFailure) = [(1500, RestoreIcon 0)] \<and>
   onBoard 1 (run oneNote (take 2 sortWhilePending)) \<and>
   quoteButton (elements (run oneNote (take 2 sortWhilePending)) ! 1) = Bulb \<and>
   \<not> onBoard 0 (run oneNote sortWhilePending) \<and>
   onBoard 1 (run oneNote sortWhilePending) \<and>
   el_note (elements (run oneNote sortWhilePending) ! 1) = 0 \<and>
   quoteButton (elements (run oneNote sortWhilePending) ! 1) = Bulb \<and>
   timeouts (run oneNote sortWhilePending) = [(1500, RestoreIcon 0)]"
  by (simp add: overlapTrace_def sortAfterFailure_def sortWhilePending_def run_def oneNote_eq
      onBoard_def quoteClick_def quoteSettled_def Let_def addRandomQuote_def updElement_def
      runCallback_def restoreIcon_def buttonShows_def sortByAsc_def sortByAscending_def
      renderAllNotes_def getAllNotes_def setupNoteEventListeners_def createElement_def)

text \<open>
  Claim C5, amended. When the fetch of a quote request fails, the listener ends normally,
  no note and nothing of the manager changes, the quote button of the note element the
  request was made on shows the error indicator, and a timeout of 1500 milliseconds that
  restores the icon is added. If that element is on the board when the fetch fails, then
  through every trace that follows and leaves the button alone (no click on it, no settling
  of a fetch for it, no firing of a timer restoring it, no sort and no animationend of the
  element) the element is still on the board, it is the only element on the board that
  shows its note, its button still shows the error indicator, and the timeout is still set.
  The firing of that timeout restores the icon.
\<close>

theorem quote_failure:
  assumes "e < length (elements s)"
  shows "quoteSettled e Rejected s = Inr (step s (QuoteSettled e Rejected)) \<and>
         heap (step s (QuoteSettled e Rejected)) = heap s \<and>
         manager (step s (QuoteSettled e Rejected)) = manager s \<and>
         quoteButton (elements (step s (QuoteSettled e Rejected)) ! e) = Cross \<and>
         timeouts (step s (QuoteSettled e Rejected)) = timeouts s @ [(1500, RestoreIcon e)] \<and>
         (onBoard e s \<and> wellFormed s \<and> onePerNote s \<and>
          buttonLeftAlone e (step s (QuoteSettled e Rejected)) evs \<longrightarrow>
            buttonShows e Cross 1500 (run (step s (QuoteSettled e Rejected)) evs) \<and>
            (\<forall>e'. onBoard e' (run (step s (QuoteSettled e Rejected)) evs) \<and>
                  el_note (elements (run (step s (QuoteSettled e Rejected)) evs) ! e') =
                  el_note (elements (run (step s (QuoteSettled e Rejected)) evs) ! e)
                    \<longrightarrow> e' = e)) \<and>
         (e < length (elements t) \<and> k < length (timeouts t) \<and>
          timeouts t ! k = (1500, RestoreIcon e) \<longrightarrow>
            quoteButton (elements (step t (TimeoutFires k)) ! e) = Bulb)"
proof -
  let ?f = "step s (QuoteSettled e Rejected)"
  from assms have f: "?f = (updElement e (\<lambda>el. el\<lparr>quoteButton := Cross\<rparr>) s)
      \<lparr>timeouts := timeouts s @ [(1500, RestoreIcon e)]\<rparr>"
    and q: "quoteSettled e Rejected s = Inr ?f"
    by (simp_all add: quoteSettled_def Let_def addRandomQuote_def)
  have frame: "heap ?f = heap s" "manager ?f = manager s"
    "quoteButton (elements ?f ! e) = Cross"
    "timeouts ?f = timeouts s @ [(1500, RestoreIcon e)]"
    unfolding f using assms by (simp_all add: updElement_nth)
  have alone: "buttonShows e Cross 1500 (run ?f evs) \<and>
      (\<forall>e'. onBoard e' (run ?f evs) \<and>
            el_note (elements (run ?f evs) ! e') = el_note (elements (run ?f evs) ! e)
              \<longrightarrow> e' = e)"
    if b: "onBoard e s" and w: "wellFormed s" and o: "onePerNote s"
      and l: "buttonLeftAlone e ?f evs"
  proof -
    from b have "buttonShows e Cross 1500 ?f"
      unfolding f by (simp add: buttonShows_def onBoard_def updElement_nth)
    from this l have sh: "buttonShows e Cross 1500 (run ?f evs)"
      by (rule run_keeps_button)
    from w have "wellFormed ?f" by (rule wellFormed_step)
    moreover from w o have "onePerNote ?f" by (rule onePerNote_step)
    ultimately have "onePerNote (run ?f evs)" by (rule onePerNote_run)
    with sh show ?thesis
      unfolding onePerNote_iff buttonShows_def by blast
  qed
  have fires: "quoteButton (elements (step t (TimeoutFires k)) ! e) = Bulb"
    if "e < length (elements t)" "k < length (timeouts t)" "timeouts t ! k = (1500, RestoreIcon e)"
    using that restore_fires [of e t k] by simp
  from q frame alone fires show ?thesis by blast
qed

theorem quote_failure_witness:
  "0 < length (elements threeNotes) \<and> onBoard 0 threeNotes \<and> wellFormed threeNotes \<and>
   onePerNote threeNotes \<and>
   buttonLeftAlone 0 (step threeNotes (QuoteSettled 0 Rejected)) quietTrace \<and>
   heap (step threeNotes (QuoteSettled 0 Rejected)) = heap threeNotes \<and>
   quoteButton (elements (step threeNotes (QuoteSettled 0 Rejected)) ! 0) = Cross \<and>
   timeouts (step threeNotes (QuoteSettled 0 Rejected)) = [(1500, RestoreIcon 0)] \<and>
   buttonShows 0 Cross 1500 (run (step threeNotes (QuoteSettled 0 Rejected)) quietTrace) \<and>
   quoteButton (elements (run (step threeNotes (QuoteSettled 0 Rejected)) quietTrace) ! 1) = Bulb \<and>
   note_content (heap (run (step threeNotes (QuoteSettled 0 Rejected)) quietTrace) ! 0) = ''buy milk'' \<and>
   quoteButton (elements (step (run (step threeNotes (QuoteSettled 0 Rejected)) quietTrace)
                                (TimeoutFires 0)) ! 0) = Bulb"
proof -
  have l: "0 < length (elements threeNotes)" "onBoard 0 threeNotes" "timeouts threeNotes = []"
    by (simp_all add: threeNotes_eq onBoard_def)
  have r: "0 < length (elements (run (step threeNotes (QuoteSettled 0 Rejected)) quietTrace))"
    "0 < length (timeouts (run (step threeNotes (QuoteSettled 0 Rejected)) quietTrace))"
    "timeouts (run (step threeNotes (QuoteSettled 0 Rejected)) quietTrace) ! 0 = (1500, RestoreIcon 0)"
    "quoteButton (elements (run (step threeNotes (QuoteSettled 0 Rejected)) quietTrace) ! 1) = Bulb"
    "note_content (heap (run (step threeNotes (QuoteSettled 0 Rejected)) quietTrace) ! 0) = ''buy milk''"
    unfolding quietTrace_run by simp_all
  note th = quote_failure [OF l(1), of quietTrace
      "run (step threeNotes (QuoteSettled 0 Rejected)) quietTrace" 0]
  from th l(3) have a: "heap (step threeNotes (QuoteSettled 0 Rejected)) = heap threeNotes"
    "quoteButton (elements (step threeNotes (QuoteSettled 0 Rejected)) ! 0) = Cross"
    "timeouts (step threeNotes (QuoteSettled 0 Rejected)) = [(1500, RestoreIcon 0)]"
    by (simp_all del: step.simps)
  from th l(2) threeNotes_wellFormed threeNotes_onePerNote quietTrace_alone
  have b: "buttonShows 0 Cross 1500 (run (step threeNotes (QuoteSettled 0 Rejected)) quietTrace)"
    by blast
  from th r(1-3)
  have c: "quoteButton (elements (step (run (step threeNotes (QuoteSettled 0 Rejected)) quietTrace)
      (TimeoutFires 0)) ! 0) = Bulb"
    by blast
  from l(1,2) threeNotes_wellFormed threeNotes_onePerNote quietTrace_alone a b c r(4,5)
  show ?thesis by blast
qed

subsection \<open>C6: the auto-save timer\<close>

text \<open>
  Claim C6. After \<open>initializeUI\<close> and any events, the one interval timer of the page is
  the auto-save timer with its period of 5000 milliseconds: nothing clears or replaces it.
  Each of its ticks appends the \<open>toJSON\<close> of the whole collection to what the persistence
  collaborator has been handed and changes nothing else, whether or not anything changed
  since the tick before: two ticks in a row hand over the same snapshot twice.
\<close>

theorem autosave_every_tick:
  "intervals (run (initializeUI h m) evs) = [(5000, SaveNotes)] \<and>
   step (run (initializeUI h m) evs) (IntervalFires 0) =
     (run (initializeUI h m) evs)
       \<lparr>saved := saved (run (initializeUI h m) evs) @
          [toJSON (heap (run (initializeUI h m) evs)) (manager (run (initializeUI h m) evs))]\<rparr> \<and>
   saved (run (run (initializeUI h m) evs) [IntervalFires 0, IntervalFires 0]) =
     saved (run (initializeUI h m) evs) @
       [toJSON (heap (run (initializeUI h m) evs)) (manager (run (initializeUI h m) evs)),
        toJSON (heap (run (initializeUI h m) evs)) (manager (run (initializeUI h m) evs))]"
proof -
  let ?s = "run (initializeUI h m) evs"
  have i: "intervals ?s = [(5000, SaveNotes)]"
    by (simp add: run_intervals initializeUI_def setupAutoSave_def)
  then have one: "step ?s (IntervalFires 0) = ?s\<lparr>saved := saved ?s @ [toJSON (heap ?s) (manager ?s)]\<rparr>"
    by (simp add: runCallback_def saveNotesCallback_def)
  from i have two: "saved (run ?s [IntervalFires 0, IntervalFires 0]) =
      saved ?s @ [toJSON (heap ?s) (manager ?s), toJSON (heap ?s) (manager ?s)]"
    by (simp add: run_def runCallback_def saveNotesCallback_def)
  from i one two show ?thesis by blast
qed

theorem autosave_every_tick_witness:
  "intervals oneNote = [(5000, SaveNotes)] \<and>
   saved (run oneNote [IntervalFires 0, IntervalFires 0]) =
     [[(0, [], 100, 50, 1000)], [(0, [], 100, 50, 1000)]]"
proof -
  have o: "oneNote = run (initializeUI [] []) [DblClick True 110 70 board500 1000]"
    by (simp add: oneNote_def run_def)
  have s: "saved oneNote = []" "toJSON (heap oneNote) (manager oneNote) = [(0, [], 100, 50, 1000)]"
    by (simp_all add: oneNote_eq toJSON_def serialize_def)
  from autosave_every_tick [of "[]" "[]" "[DblClick True 110 70 board500 1000]", folded o] s
  show ?thesis by (simp del: step.simps)
qed

subsection \<open>C7: the clamp is the projection onto the board\<close>

text \<open>
  Claim C7. The clamp of the mousemove listener is the identity on valid input and
  projects invalid input to the nearest valid point: a candidate inside
  \<open>[0, boardWidth - noteWidth] \<times> [0, boardHeight - noteHeight]\<close> is applied unchanged, and
  the position applied is inside that rectangle and at least as close to the candidate as
  any point of the rectangle, on each axis and in Euclidean distance. With a board of 500
  by 500 and a note of 100 by 50 the candidate (520, 10) clamps to (400, 10).
\<close>

theorem clamp_is_projection:
  assumes "isDragging (elements s ! e)"
    and "dragOffsetX (elements s ! e) = Some ox"
    and "dragOffsetY (elements s ! e) = Some oy"
    and "el_note (elements s ! e) < length (heap s)"
  shows "(let n = heap (mousemove e clientX clientY boardRect w h s) ! el_note (elements s ! e);
              candX = clientX - rect_left boardRect - ox;
              candY = clientY - rect_top boardRect - oy
          in (0 \<le> candX \<and> candX \<le> rect_width boardRect - w \<and>
              0 \<le> candY \<and> candY \<le> rect_height boardRect - h
                \<longrightarrow> note_x n = candX \<and> note_y n = candY) \<and>
             (\<forall>px py. 0 \<le> px \<and> px \<le> rect_width boardRect - w \<and>
                      0 \<le> py \<and> py \<le> rect_height boardRect - h
                \<longrightarrow> withinBoard boardRect w h n \<and>
                    \<bar>note_x n - candX\<bar> \<le> \<bar>px - candX\<bar> \<and>
                    \<bar>note_y n - candY\<bar> \<le> \<bar>py - candY\<bar> \<and>
                    (note_x n - candX)\<^sup>2 + (note_y n - candY)\<^sup>2
                      \<le> (px - candX)\<^sup>2 + (py - candY)\<^sup>2)) \<and>
         keepWithin 520 (500 - 100) = 400 \<and> keepWithin 10 (500 - 50) = 10"
proof -
  let ?lx = "rect_width boardRect - w" and ?ly = "rect_height boardRect - h"
  let ?cx = "clientX - rect_left boardRect - ox" and ?cy = "clientY - rect_top boardRect - oy"
  let ?n = "heap (mousemove e clientX clientY boardRect w h s) ! el_note (elements s ! e)"
  have x: "note_x ?n = keepWithin ?cx ?lx" and y: "note_y ?n = keepWithin ?cy ?ly"
    using assms by (simp_all add: mousemove_dragging updNote_heap_same updatePosition_def)
  have same: "note_x ?n = ?cx \<and> note_y ?n = ?cy"
    if "0 \<le> ?cx" "?cx \<le> ?lx" "0 \<le> ?cy" "?cy \<le> ?ly"
    using that by (simp add: x y keepWithin_id)
  have near: "withinBoard boardRect w h ?n \<and>
      \<bar>note_x ?n - ?cx\<bar> \<le> \<bar>px - ?cx\<bar> \<and> \<bar>note_y ?n - ?cy\<bar> \<le> \<bar>py - ?cy\<bar> \<and>
      (note_x ?n - ?cx)\<^sup>2 + (note_y ?n - ?cy)\<^sup>2 \<le> (px - ?cx)\<^sup>2 + (py - ?cy)\<^sup>2"
    if p: "0 \<le> px" "px \<le> ?lx" "0 \<le> py" "py \<le> ?ly" for px py
  proof -
    from p have lim: "0 \<le> ?lx" "0 \<le> ?ly" by linarith+
    then have inside: "withinBoard boardRect w h ?n"
      by (simp add: withinBoard_def x y keepWithin_nonneg keepWithin_upper)
    have ax: "\<bar>note_x ?n - ?cx\<bar> \<le> \<bar>px - ?cx\<bar>"
      unfolding x using p(1,2) by (rule keepWithin_nearest)
    have ay: "\<bar>note_y ?n - ?cy\<bar> \<le> \<bar>py - ?cy\<bar>"
      unfolding y using p(3,4) by (rule keepWithin_nearest)
    from ax ay have "(note_x ?n - ?cx)\<^sup>2 \<le> (px - ?cx)\<^sup>2" "(note_y ?n - ?cy)\<^sup>2 \<le> (py - ?cy)\<^sup>2"
      by (simp_all add: abs_le_square)
    then have "(note_x ?n - ?cx)\<^sup>2 + (note_y ?n - ?cy)\<^sup>2 \<le> (px - ?cx)\<^sup>2 + (py - ?cy)\<^sup>2"
      by (rule add_mono)
    with inside ax ay show ?thesis by simp
  qed
  have scenario: "keepWithin 520 (500 - 100) = 400 \<and> keepWithin 10 (500 - 50) = 10"
    by (simp add: keepWithin_def)
  from same near scenario show ?thesis
    unfolding Let_def by blast
qed

theorem clamp_is_projection_witness:
  "isDragging (elements oneNoteDragged ! 0) \<and>
   dragOffsetX (elements oneNoteDragged ! 0) = Some 5 \<and>
   dragOffsetY (elements oneNoteDragged ! 0) = Some 5 \<and>
   el_note (elements oneNoteDragged ! 0) < length (heap oneNoteDragged) \<and>
   note_x (heap (mousemove 0 535 35 board500 100 50 oneNoteDragged) ! 0) = 400 \<and>
   note_y (heap (mousemove 0 535 35 board500 100 50 oneNoteDragged) ! 0) = 10 \<and>
   note_x (heap (mousemove 0 215 135 board500 100 50 oneNoteDragged) ! 0) = 200 \<and>
   note_y (heap (mousemove 0 215 135 board500 100 50 oneNoteDragged) ! 0) = 110"
  using clamp_is_projection [of oneNoteDragged 0 5 5 535 35 board500 100 50]
    clamp_is_projection [of oneNoteDragged 0 5 5 215 135 board500 100 50]
  by (simp add: oneNoteDragged_eq mousemove_def Let_def updNote_def updatePosition_def
      keepWithin_def board500_def)

subsection \<open>C8: a mousedown on a control or on the content\<close>

text \<open>
  What the mousedown listener does get right: a mousedown whose target is the delete
  button, the quote button or the content element itself changes nothing, and a pointer
  movement that follows leaves the position of the note, idle before, as it was; a
  mousedown with any other target on a note element of the board sets \<open>isDragging\<close>.
\<close>

lemma mousedown_on_the_three_elements:
  assumes "tgt = DeleteButton \<or> tgt = QuoteButton \<or> tgt = ContentElement"
  shows "step s (MouseDown e tgt clientX clientY noteRect) = s \<and>
         (idle (el_note (elements s ! e)) s \<longrightarrow>
            heap (step (step s (MouseDown e tgt clientX clientY noteRect))
                    (MouseMove clientX' clientY' boardRect sz)) ! el_note (elements s ! e)
              = heap s ! el_note (elements s ! e)) \<and>
         (onBoard e s \<and> tgt' \<noteq> DeleteButton \<and> tgt' \<noteq> QuoteButton \<and> tgt' \<noteq> ContentElement \<longrightarrow>
            isDragging (elements (step s (MouseDown e tgt' clientX clientY noteRect)) ! e))"
proof -
  have same: "step s (MouseDown e tgt clientX clientY noteRect) = s"
    using assms by (auto simp: mousedown_def)
  have still: "heap (step s (MouseMove clientX' clientY' boardRect sz)) ! el_note (elements s ! e)
      = heap s ! el_note (elements s ! e)" if "idle (el_note (elements s ! e)) s"
  proof -
    from that have "\<forall>i\<in>set [0..<length (elements s)].
        \<not> (isDragging (elements s ! i) \<and> el_note (elements s ! i) = el_note (elements s ! e))"
      by (auto simp: idle_iff)
    then show ?thesis by (simp add: moves_other_note)
  qed
  have starts: "isDragging (elements (step s (MouseDown e tgt' clientX clientY noteRect)) ! e)"
    if "onBoard e s" "tgt' \<noteq> DeleteButton" "tgt' \<noteq> QuoteButton" "tgt' \<noteq> ContentElement"
    using that by (simp add: mousedown_def updElement_nth onBoard_def)
  from same still starts show ?thesis by simp
qed

text \<open>
  Claim C8 says that a mousedown whose target is the delete control, the quote control or
  the editable content region of a note starts no drag, so that a pointer movement after it
  does not move the note. The listener (lines 133-135) compares \<^verbatim>\<open>event.target\<close> with the
  three elements themselves, although its comment says "buttons or content area". A
  mousedown on a node inside the content region of the idle note 0 sets \<open>isDragging\<close>, and
  the pointer movement that follows takes the note from (100, 50) to (200, 110).
\<close>

theorem mousedown_inside_content_starts_drag:
  "onBoard 0 oneNote \<and> \<not> isDragging (elements oneNote ! 0) \<and>
   note_x (heap oneNote ! 0) = 100 \<and> note_y (heap oneNote ! 0) = 50 \<and>
   isDragging (elements (step oneNote (MouseDown 0 InsideContent 115 75 (noteRectAt 110 70))) ! 0) \<and>
   note_x (heap (run oneNote [MouseDown 0 InsideContent 115 75 (noteRectAt 110 70),
                              MouseMove 215 135 board500 noteSize]) ! 0) = 200 \<and>
   note_y (heap (run oneNote [MouseDown 0 InsideContent 115 75 (noteRectAt 110 70),
                              MouseMove 215 135 board500 noteSize]) ! 0) = 110"
  by (simp add: run_def oneNote_eq onBoard_def idle_def mousedown_def updElement_def noteRectAt_def
      upt_rec mousemove_def Let_def updNote_def updatePosition_def keepWithin_def board500_def
      noteSize_def)

subsection \<open>C9: the drag offset stays fixed during a drag\<close>

text \<open>
  Claim C9. The offset recorded by the mousedown that starts a drag (the pointer's position
  minus the top-left corner of the note element) is still the closure's offset after any
  events that follow, up to the mouseup or a new drag start on this element; the closure is
  still dragging, and every mousemove computes its candidate position as the pointer's
  position, relative to the board, minus that offset, whatever was clamped before.
\<close>

theorem drag_offset_fixed:
  assumes "onBoard e s"
    and "tgt \<noteq> DeleteButton" and "tgt \<noteq> QuoteButton" and "tgt \<noteq> ContentElement"
    and "list_all (duringDrag e) evs"
  shows "(let t = run (step s (MouseDown e tgt clientX clientY noteRect)) evs;
              el = elements t ! e
          in isDragging el \<and>
             dragOffsetX el = Some (clientX - rect_left noteRect) \<and>
             dragOffsetY el = Some (clientY - rect_top noteRect) \<and>
             mousemove e clientX' clientY' boardRect w h t =
               updNote (el_note el)
                 (updatePosition
                    (keepWithin (clientX' - rect_left boardRect - (clientX - rect_left noteRect))
                       (rect_width boardRect - w))
                    (keepWithin (clientY' - rect_top boardRect - (clientY - rect_top noteRect))
                       (rect_height boardRect - h))) t)"
proof -
  let ?s1 = "step s (MouseDown e tgt clientX clientY noteRect)"
  let ?t = "run ?s1 evs"
  from assms(1-4) have len: "e < length (elements ?s1)"
    and start: "dragVars (elements ?s1 ! e) =
      (el_note (elements s ! e), True, Some (clientX - rect_left noteRect),
       Some (clientY - rect_top noteRect))"
    by (simp_all add: onBoard_def mousedown_def updElement_nth dragVars_def)
  from run_keeps_dragVars [OF len assms(5)] start
  have vars: "isDragging (elements ?t ! e)"
    "dragOffsetX (elements ?t ! e) = Some (clientX - rect_left noteRect)"
    "dragOffsetY (elements ?t ! e) = Some (clientY - rect_top noteRect)"
    by (simp_all add: dragVars_def)
  from vars mousemove_dragging [OF vars, of clientX' clientY' boardRect w h]
  show ?thesis by (simp add: Let_def)
qed

theorem drag_offset_fixed_witness:
  "onBoard 0 oneNote \<and> list_all (duringDrag 0) dragTrace \<and>
   isDragging (elements (run oneNoteDragged dragTrace) ! 0) \<and>
   dragOffsetX (elements (run oneNoteDragged dragTrace) ! 0) = Some 5 \<and>
   dragOffsetY (elements (run oneNoteDragged dragTrace) ! 0) = Some 5 \<and>
   note_x (heap (run oneNoteDragged (take 1 dragTrace)) ! 0) = 400 \<and>
   note_x (heap (mousemove 0 315 235 board500 100 50 (run oneNoteDragged dragTrace)) ! 0) = 300 \<and>
   note_y (heap (mousemove 0 315 235 board500 100 50 (run oneNoteDragged dragTrace)) ! 0) = 210"
proof -
  have b: "onBoard 0 oneNote"
    by (simp add: onBoard_def oneNote_eq)
  have d: "list_all (duringDrag 0) dragTrace"
    by (simp add: dragTrace_def)
  have c: "note_x (heap (run oneNoteDragged (take 1 dragTrace)) ! 0) = 400"
    by (simp add: dragTrace_def run_def oneNoteDragged_eq upt_rec mousemove_def Let_def updNote_def
      updatePosition_def keepWithin_def board500_def noteSize_def)
  have t: "Elsewhere \<noteq> DeleteButton" "Elsewhere \<noteq> QuoteButton" "Elsewhere \<noteq> ContentElement"
    by simp_all
  note th = drag_offset_fixed [OF b t d, of 115 75 "noteRectAt 110 70" 315 235 board500 100 50,
      folded oneNoteDragged_def]
  from th
  have "isDragging (elements (run oneNoteDragged dragTrace) ! 0) \<and>
   dragOffsetX (elements (run oneNoteDragged dragTrace) ! 0) = Some 5 \<and>
   dragOffsetY (elements (run oneNoteDragged dragTrace) ! 0) = Some 5 \<and>
   note_x (heap (mousemove 0 315 235 board500 100 50 (run oneNoteDragged dragTrace)) ! 0) = 300 \<and>
   note_y (heap (mousemove 0 315 235 board500 100 50 (run oneNoteDragged dragTrace)) ! 0) = 210"
    unfolding dragTrace_run
    by (simp add: Let_def oneNoteDragged_eq noteRectAt_def mousemove_def updNote_def
        updatePosition_def keepWithin_def board500_def)
  with b d c show ?thesis by simp
qed

subsection \<open>C10: pointer movement only moves notes that are being dragged\<close>

text \<open>
  Claim C10. A mousemove leaves the manager's collection, the elements' state and the
  content and timestamp of every note as they are, and leaves every note as it is, position
  included, that no closure is dragging; after a mouseup no note is being dragged, and a
  mousemove changes nothing at all.
\<close>

theorem pointer_move_frame:
  "manager (step s (MouseMove clientX clientY boardRect sz)) = manager s \<and>
   elements (step s (MouseMove clientX clientY boardRect sz)) = elements s \<and>
   length (heap (step s (MouseMove clientX clientY boardRect sz))) = length (heap s) \<and>
   note_content (heap (step s (MouseMove clientX clientY boardRect sz)) ! r) = note_content (heap s ! r) \<and>
   note_timestamp (heap (step s (MouseMove clientX clientY boardRect sz)) ! r) = note_timestamp (heap s ! r) \<and>
   (idle r s \<longrightarrow> heap (step s (MouseMove clientX clientY boardRect sz)) ! r = heap s ! r) \<and>
   step (step s MouseUp) (MouseMove clientX clientY boardRect sz) = step s MouseUp"
proof -
  have "heap (step s (MouseMove clientX clientY boardRect sz)) ! r = heap s ! r" if "idle r s"
  proof -
    from that have "\<forall>e\<in>set [0..<length (elements s)].
        \<not> (isDragging (elements s ! e) \<and> el_note (elements s ! e) = r)"
      by (auto simp: idle_iff)
    then show ?thesis by (simp add: moves_other_note)
  qed
  moreover have "step (step s MouseUp) (MouseMove clientX clientY boardRect sz) = step s MouseUp"
  proof -
    have "\<forall>e\<in>set [0..<length (elements (step s MouseUp))].
        \<not> isDragging (elements (step s MouseUp) ! e)"
      using after_mouseup_idle by simp
    then show ?thesis
      using moves_idle [of "[0..<length (elements (step s MouseUp))]" "step s MouseUp"]
      by simp
  qed
  ultimately show ?thesis
    by (simp add: moves_frame moves_content)
qed

theorem pointer_move_frame_witness:
  "idle 1 twoNotes \<and> \<not> idle 0 twoNotes \<and>
   heap (step twoNotes (MouseMove 535 35 board500 noteSize)) ! 1 = heap twoNotes ! 1 \<and>
   note_x (heap (step twoNotes (MouseMove 535 35 board500 noteSize)) ! 0) = 400 \<and>
   note_x (heap twoNotes ! 0) = 100 \<and>
   heap (step (step twoNotes MouseUp) (MouseMove 535 35 board500 noteSize)) = heap twoNotes"
proof -
  have i: "idle 1 twoNotes" "\<not> idle 0 twoNotes"
    by (simp_all add: idle_def twoNotes_eq)
  have m: "note_x (heap (step twoNotes (MouseMove 535 35 board500 noteSize)) ! 0) = 400"
    unfolding twoNotes_moved by simp
  have h: "note_x (heap twoNotes ! 0) = 100"
    by (simp add: twoNotes_eq)
  have u: "heap (step twoNotes MouseUp) = heap twoNotes"
    by (simp add: ups_frame)
  from i m h u pointer_move_frame [of twoNotes 535 35 board500 noteSize 1]
  show ?thesis by simp
qed

end
